theory Spec2Isabelle
  imports Complex_Main "HOL-Library.Multiset"
begin

section \<open>Binary64 arithmetic\<close>

text \<open>
  A JavaScript number is an IEEE 754 binary64 value.  A finite one is a rational number and
  is modelled by the real number it denotes.  An arithmetic operation of the time engine
  gives the exact result rounded to the nearest binary64 value, ties to the even
  significand: \<open>rnd\<close>.  For \<open>a > 0\<close>, \<open>binExp a\<close> is the exponent \<open>e\<close> with
  \<open>2^e \<le> a < 2^(e+1)\<close>, found by halving (\<open>expUp\<close>) or doubling (\<open>expDown\<close>).  A value
  with exponent \<open>e\<close> is rounded to a multiple of \<open>2^(e-52)\<close>, and below \<open>2^(-1022)\<close> to a
  multiple of \<open>2^(-1074)\<close>, the spacing of the subnormal numbers.  Comparisons are exact.
  NaN, the infinities and the overflow of a result beyond the largest binary64 value are
  not modelled.
\<close>

definition pow2 :: "int \<Rightarrow> real" where
  "pow2 k = (if 0 \<le> k then 2 ^ nat k else 1 / 2 ^ nat (- k))"

function expUp :: "real \<Rightarrow> int" where
  "expUp a = (if 2 \<le> a then expUp (a / 2) + 1 else 0)"
  by pat_completeness auto
termination
proof (relation "measure (\<lambda>a. nat \<lceil>a\<rceil>)")
  show "wf (measure (\<lambda>a::real. nat \<lceil>a\<rceil>))" by simp
next
  fix a :: real
  assume "2 \<le> a"
  then have "\<lceil>a / 2\<rceil> < \<lceil>a\<rceil>" by linarith
  moreover have "0 < \<lceil>a\<rceil>" using \<open>2 \<le> a\<close> by linarith
  ultimately show "(a / 2, a) \<in> measure (\<lambda>a. nat \<lceil>a\<rceil>)" by simp
qed

declare expUp.simps [simp del]

function expDown :: "real \<Rightarrow> int" where
  "expDown a = (if 0 < a \<and> a < 1 then expDown (a * 2) - 1 else 0)"
  by pat_completeness auto
termination
proof (relation "measure (\<lambda>a. nat \<lceil>1 / a\<rceil>)")
  show "wf (measure (\<lambda>a::real. nat \<lceil>1 / a\<rceil>))" by simp
next
  fix a :: real
  assume a: "0 < a \<and> a < 1"
  define b where "b = 1 / a"
  have b: "1 < b" using a by (simp add: b_def)
  have h: "1 / (a * 2) = b / 2" unfolding b_def by simp
  have "2 \<le> \<lceil>b\<rceil>" using b by linarith
  then have c: "(2::real) \<le> of_int \<lceil>b\<rceil>" by linarith
  have d: "b \<le> of_int \<lceil>b\<rceil>" by (rule le_of_int_ceiling)
  have "b / 2 \<le> of_int \<lceil>b\<rceil> - 1" using c d by linarith
  then have "b / 2 \<le> of_int (\<lceil>b\<rceil> - 1)" by simp
  then have "\<lceil>b / 2\<rceil> \<le> \<lceil>b\<rceil> - 1" by (simp only: ceiling_le_iff)
  then have "\<lceil>1 / (a * 2)\<rceil> < \<lceil>1 / a\<rceil>" unfolding h unfolding b_def by linarith
  moreover have "0 < \<lceil>1 / a\<rceil>" using b unfolding b_def by linarith
  ultimately show "(a * 2, a) \<in> measure (\<lambda>a. nat \<lceil>1 / a\<rceil>)" by simp
qed

declare expDown.simps [simp del]

definition binExp :: "real \<Rightarrow> int" where
  "binExp a = (if 2 \<le> a then expUp a else expDown a)"

definition roundEven :: "real \<Rightarrow> int" where
  "roundEven m =
     (let f = \<lfloor>m\<rfloor>; r = m - of_int f
      in if r < 1/2 then f else if 1/2 < r then f + 1 else if even f then f else f + 1)"

definition rnd :: "real \<Rightarrow> real" where
  "rnd x =
     (if x = 0 then 0
      else (let e = max (binExp \<bar>x\<bar>) (- 1022);
                u = pow2 (e - 52)
            in of_int (roundEven (x / u)) * u))"

text \<open>The operators \<open>+\<close>, \<open>-\<close>, \<open>*\<close>, \<open>/\<close> of the source.\<close>

definition fadd :: "real \<Rightarrow> real \<Rightarrow> real" where
  "fadd a b = rnd (a + b)"

definition fsub :: "real \<Rightarrow> real \<Rightarrow> real" where
  "fsub a b = rnd (a - b)"

definition fmul :: "real \<Rightarrow> real \<Rightarrow> real" where
  "fmul a b = rnd (a * b)"

definition fdiv :: "real \<Rightarrow> real \<Rightarrow> real" where
  "fdiv a b = rnd (a / b)"

section \<open>Time engine: keyframe math\<close>

text \<open>
  A keyframe row carries its clip-local \<open>time\<close>; a speed
  keyframe adds \<open>speed\<close>, an overlay keyframe adds the transform fields.  The overlay fields
  that the source reads under two spellings (\<open>scale_x\<close> and \<open>scaleX\<close>) are both present and
  optional, as is \<open>easing\<close>; \<open>x\<close>, \<open>y\<close>, \<open>rotation\<close> and \<open>opacity\<close> are numbers
  (\<open>REAL NOT NULL\<close> in the schema), named \<open>kx\<close>, \<open>ky\<close> here.
\<close>

record keyframe =
  time :: real

record speed_kf = keyframe +
  speed :: real

record overlay_kf = keyframe +
  kx :: real
  ky :: real
  scale_x :: "real option"
  scaleX :: "real option"
  scale_y :: "real option"
  scaleY :: "real option"
  rotation :: real
  opacity :: real
  easing :: "string option"

record transform =
  t_x :: real
  t_y :: real
  t_scaleX :: real
  t_scaleY :: real
  t_rotation :: real
  t_opacity :: real

text \<open>\<open>[...keyframes].sort((a, b) => a.time - b.time)\<close>: a stable sort by \<open>time\<close>.\<close>

definition sortByTime :: "('a keyframe_scheme) list \<Rightarrow> ('a keyframe_scheme) list" where
  "sortByTime keyframes = sort_key time keyframes"

text \<open>
  The \<open>for\<close> loop of \<open>mapClipSourceTime\<close> over the sorted keyframes, with the loop variables
  \<open>sourceTime\<close>, \<open>prevTime\<close>, \<open>prevSpeed\<close> as arguments; the empty list is the code after
  the loop.
\<close>

fun mapLoop :: "real \<Rightarrow> real \<Rightarrow> real \<Rightarrow> real \<Rightarrow> speed_kf list \<Rightarrow> real" where
  "mapLoop clipLocalTime sourceTime prevTime prevSpeed [] =
     (let remaining = fsub clipLocalTime prevTime
      in fadd sourceTime (fmul remaining prevSpeed))"
| "mapLoop clipLocalTime sourceTime prevTime prevSpeed (k # ks) =
     (let kfTime = time k; kfSpeed = speed k in
      if clipLocalTime \<le> kfTime then
        (let segLen = fsub kfTime prevTime; t = fsub clipLocalTime prevTime in
         if segLen = 0 then fadd sourceTime (fmul prevSpeed t)
         else (let frac = fdiv t segLen;
                   speedAtT = fadd prevSpeed (fmul (fsub kfSpeed prevSpeed) frac)
               in fadd sourceTime (fdiv (fmul t (fadd prevSpeed speedAtT)) 2)))
      else (let segLen = fsub kfTime prevTime in
            mapLoop clipLocalTime
              (fadd sourceTime (fdiv (fmul segLen (fadd prevSpeed kfSpeed)) 2))
              kfTime kfSpeed ks))"

definition mapClipSourceTime :: "real \<Rightarrow> speed_kf list \<Rightarrow> real" where
  "mapClipSourceTime clipLocalTime keyframes =
     (if keyframes = [] then clipLocalTime
      else (let kf = sortByTime keyframes in
            mapLoop clipLocalTime 0 0 (speed (hd kf)) kf))"

definition lerp :: "real \<Rightarrow> real \<Rightarrow> real \<Rightarrow> real" where
  "lerp a b t = fadd a (fmul (fsub b a) t)"

definition getEasedProgress :: "real \<Rightarrow> string \<Rightarrow> real" where
  "getEasedProgress t e =
     (if e = ''easeIn'' then fmul t t
      else if e = ''easeOut'' then fmul t (fsub 2 t)
      else if e = ''easeInOut''
        then (if t < 1/2 then fmul (fmul 2 t) t else fadd (- 1) (fmul (fsub 4 (fmul 2 t)) t))
      else t)"

text \<open>\<open>a ?? b ?? 1\<close> on the two spellings of a scale field.\<close>

definition scaleOf :: "real option \<Rightarrow> real option \<Rightarrow> real" where
  "scaleOf a b = (case a of Some v \<Rightarrow> v | None \<Rightarrow> (case b of Some w \<Rightarrow> w | None \<Rightarrow> 1))"

definition kfToTransform :: "overlay_kf \<Rightarrow> transform" where
  "kfToTransform kf =
     \<lparr> t_x = kx kf, t_y = ky kf,
       t_scaleX = scaleOf (scale_x kf) (scaleX kf),
       t_scaleY = scaleOf (scale_y kf) (scaleY kf),
       t_rotation = rotation kf, t_opacity = opacity kf \<rparr>"

definition defaults :: transform where
  "defaults = \<lparr> t_x = 0, t_y = 0, t_scaleX = 1, t_scaleY = 1, t_rotation = 0, t_opacity = 1 \<rparr>"

text \<open>
  The search loop of \<open>interpolateOverlay\<close> over consecutive pairs \<open>kf[i]\<close>, \<open>kf[i+1]\<close>;
  \<open>None\<close> when the loop ends without returning.  An empty \<open>easing\<close> string is falsy.
\<close>

fun overlayScan :: "real \<Rightarrow> overlay_kf list \<Rightarrow> transform option" where
  "overlayScan clipLocalTime (a # b # ks) =
     (if clipLocalTime \<ge> time a \<and> clipLocalTime \<le> time b then
        (let segLen = fsub (time b) (time a);
             t0 = (if segLen = 0 then 0 else fdiv (fsub clipLocalTime (time a)) segLen);
             e = (case easing a of None \<Rightarrow> ''linear''
                  | Some s \<Rightarrow> if s = [] then ''linear'' else s);
             t = getEasedProgress t0 e
         in Some \<lparr> t_x = lerp (kx a) (kx b) t,
                   t_y = lerp (ky a) (ky b) t,
                   t_scaleX = lerp (scaleOf (scale_x a) (scaleX a)) (scaleOf (scale_x b) (scaleX b)) t,
                   t_scaleY = lerp (scaleOf (scale_y a) (scaleY a)) (scaleOf (scale_y b) (scaleY b)) t,
                   t_rotation = lerp (rotation a) (rotation b) t,
                   t_opacity = lerp (opacity a) (opacity b) t \<rparr>)
      else overlayScan clipLocalTime (b # ks))"
| "overlayScan clipLocalTime ks = None"

definition interpolateOverlay :: "real \<Rightarrow> overlay_kf list \<Rightarrow> transform" where
  "interpolateOverlay clipLocalTime keyframes =
     (if keyframes = [] then defaults
      else (let kf = sortByTime keyframes in
            if clipLocalTime \<le> time (hd kf) then kfToTransform (hd kf)
            else if clipLocalTime \<ge> time (last kf) then kfToTransform (last kf)
            else (case overlayScan clipLocalTime kf of
                    Some r \<Rightarrow> r
                  | None \<Rightarrow> kfToTransform (last kf))))"

fun speedScan :: "real \<Rightarrow> speed_kf list \<Rightarrow> real option" where
  "speedScan clipLocalTime (a # b # ks) =
     (if clipLocalTime \<ge> time a \<and> clipLocalTime \<le> time b then
        (let segLen = fsub (time b) (time a);
             t = (if segLen = 0 then 0 else fdiv (fsub clipLocalTime (time a)) segLen)
         in Some (lerp (speed a) (speed b) t))
      else speedScan clipLocalTime (b # ks))"
| "speedScan clipLocalTime ks = None"

definition getSpeedAtTime :: "real \<Rightarrow> speed_kf list \<Rightarrow> real" where
  "getSpeedAtTime clipLocalTime keyframes =
     (if keyframes = [] then 1
      else (let kf = sortByTime keyframes in
            if clipLocalTime \<le> time (hd kf) then speed (hd kf)
            else if clipLocalTime \<ge> time (last kf) then speed (last kf)
            else (case speedScan clipLocalTime kf of
                    Some v \<Rightarrow> v
                  | None \<Rightarrow> speed (last kf))))"

text \<open>The two keyframe lists of the time-engine tests.\<close>

definition rampKfs :: "speed_kf list" where
  "rampKfs = [\<lparr>time = 0, speed = 1\<rparr>, \<lparr>time = 2, speed = 3\<rparr>]"

definition holdKfs :: "speed_kf list" where
  "holdKfs = [\<lparr>time = 0, speed = 1\<rparr>, \<lparr>time = 1, speed = 0\<rparr>,
              \<lparr>time = 3, speed = 0\<rparr>, \<lparr>time = 4, speed = 1\<rparr>]"

text \<open>
  A ramp from speed 4 at time 0 down to speed 1 at time 1, and the two binary64 values just
  below 1: \<open>1 - 2^(-52)\<close> and the larger \<open>1 - 2^(-53)\<close>.
\<close>

definition slowdownKfs :: "speed_kf list" where
  "slowdownKfs = [\<lparr>time = 0, speed = 4\<rparr>, \<lparr>time = 1, speed = 1\<rparr>]"

definition belowOne2 :: real where
  "belowOne2 = 1 - 1 / 2 ^ 52"

definition belowOne1 :: real where
  "belowOne1 = 1 - 1 / 2 ^ 53"

section \<open>Time engine: timeline evaluation\<close>

text \<open>
  The project snapshot.  \<open>properties\<close> is the parsed JSON object of a clip, a list of
  fields; \<open>clip_id\<close> and \<open>track_type\<close> are the source's \<open>id\<close> and \<open>type\<close>.
\<close>

datatype jvalue = JBool bool | JNum real | JStr string

type_synonym props = "(string \<times> jvalue) list"

record clip =
  clip_id :: string
  asset_id :: "string option"
  start_time :: real
  duration :: real
  in_point :: real
  out_point :: real
  properties :: props
  speedKeyframes :: "speed_kf list"
  overlayKeyframes :: "overlay_kf list"

record track =
  track_type :: string
  clips :: "clip list"

record project =
  tracks :: "track list"

record entry =
  clipId :: string
  assetId :: "string option"
  eproperties :: props

record video_entry = entry +
  sourceTime :: real
  clipLocalTime :: real

record overlay_entry = entry +
  etransform :: transform

text \<open>The value \<open>evaluateTimeline\<close> returns; \<open>None\<close> is \<open>null\<close>.\<close>

record layers =
  videoA :: "video_entry option"
  videoB :: "video_entry option"
  overlayTexts :: "overlay_entry list"
  overlayImages :: "overlay_entry list"
  audio :: "video_entry option"

definition emptyLayers :: layers where
  "emptyLayers = \<lparr> videoA = None, videoB = None, overlayTexts = [], overlayImages = [],
                   audio = None \<rparr>"

text \<open>The entry objects built in the two branches of the loop body.\<close>

definition videoEntry :: "real \<Rightarrow> clip \<Rightarrow> video_entry" where
  "videoEntry timelineTime c =
     (let clipLocalTime = fsub timelineTime (start_time c);
          sourceTime = fadd (in_point c) (mapClipSourceTime clipLocalTime (speedKeyframes c))
      in \<lparr> clipId = clip_id c, assetId = asset_id c, eproperties = properties c,
           sourceTime = sourceTime, clipLocalTime = clipLocalTime \<rparr>)"

definition overlayEntry :: "real \<Rightarrow> clip \<Rightarrow> overlay_entry" where
  "overlayEntry timelineTime c =
     (let clipLocalTime = fsub timelineTime (start_time c);
          transform = interpolateOverlay clipLocalTime (overlayKeyframes c)
      in \<lparr> clipId = clip_id c, assetId = asset_id c, eproperties = properties c,
           etransform = transform \<rparr>)"

text \<open>
  The body of the inner loop of \<open>evaluateTimeline\<close> for one clip of a track of type
  \<open>ttype\<close>: \<open>continue\<close> leaves the result as it is.
\<close>

definition evalClip :: "string \<Rightarrow> real \<Rightarrow> layers \<Rightarrow> clip \<Rightarrow> layers" where
  "evalClip ttype timelineTime result c =
     (let clipStart = start_time c; clipEnd = fadd clipStart (duration c) in
      if timelineTime < clipStart \<or> timelineTime \<ge> clipEnd then result
      else if ttype = ''VIDEO_A'' \<or> ttype = ''VIDEO_B'' then
        (if ttype = ''VIDEO_A'' then result\<lparr>videoA := Some (videoEntry timelineTime c)\<rparr>
         else result\<lparr>videoB := Some (videoEntry timelineTime c)\<rparr>)
      else if ttype = ''OVERLAY_TEXT'' \<or> ttype = ''OVERLAY_IMAGE'' then
        (if ttype = ''OVERLAY_TEXT''
         then result\<lparr>overlayTexts := overlayTexts result @ [overlayEntry timelineTime c]\<rparr>
         else result\<lparr>overlayImages := overlayImages result @ [overlayEntry timelineTime c]\<rparr>)
      else if ttype = ''AUDIO'' then result
      else result)"

definition evalTrack :: "real \<Rightarrow> layers \<Rightarrow> track \<Rightarrow> layers" where
  "evalTrack timelineTime result tr = foldl (evalClip (track_type tr) timelineTime) result (clips tr)"

definition evaluateTimeline :: "project option \<Rightarrow> real \<Rightarrow> layers" where
  "evaluateTimeline proj timelineTime =
     (case proj of
        None \<Rightarrow> emptyLayers
      | Some p \<Rightarrow> foldl (evalTrack timelineTime) emptyLayers (tracks p))"

text \<open>
  The specification's notion of an active clip: the query time lies in the half-open
  extent \<open>[start_time, start_time + duration)\<close>, the sum being the binary64 sum the code
  computes.  \<open>clipsOn\<close> lists the clips of all tracks of one type, in track order and
  then in clip order.
\<close>

definition inExtent :: "real \<Rightarrow> clip \<Rightarrow> bool" where
  "inExtent t c = (start_time c \<le> t \<and> t < fadd (start_time c) (duration c))"

definition clipsOn :: "string \<Rightarrow> project \<Rightarrow> clip list" where
  "clipsOn ttype p = concat (map clips (filter (\<lambda>tr. track_type tr = ttype) (tracks p)))"

definition lastOf :: "'a list \<Rightarrow> 'a option" where
  "lastOf xs = (if xs = [] then None else Some (last xs))"

text \<open>
  The video entry left by a list of clips processed in order, starting from \<open>v\<close>: the
  entry of the last clip whose extent contains the query time, or \<open>v\<close> when there is none.
\<close>

definition pick :: "real \<Rightarrow> video_entry option \<Rightarrow> clip list \<Rightarrow> video_entry option" where
  "pick t v cs =
     (case lastOf (filter (inExtent t) cs) of None \<Rightarrow> v | Some c \<Rightarrow> Some (videoEntry t c))"

text \<open>Sample projects: the one of the time-engine test, two abutting clips, an audio track.\<close>

definition mkClip :: "string \<Rightarrow> string option \<Rightarrow> real \<Rightarrow> real \<Rightarrow> speed_kf list \<Rightarrow> clip" where
  "mkClip i a s d kfs =
     \<lparr> clip_id = i, asset_id = a, start_time = s, duration = d, in_point = 0, out_point = d,
       properties = [], speedKeyframes = kfs, overlayKeyframes = [] \<rparr>"

definition testProject :: project where
  "testProject = \<lparr> tracks =
     [ \<lparr> track_type = ''VIDEO_A'',
         clips = [mkClip ''clip1'' (Some ''asset1'') 0 5
                    [\<lparr>time = 0, speed = 1\<rparr>, \<lparr>time = 2, speed = 2\<rparr>]] \<rparr>,
       \<lparr> track_type = ''OVERLAY_TEXT'', clips = [mkClip ''text1'' None 1 3 []] \<rparr> ] \<rparr>"

definition clipLeft :: clip where
  "clipLeft = mkClip ''left'' (Some ''asset1'') 0 5 []"

definition clipRight :: clip where
  "clipRight = mkClip ''right'' (Some ''asset1'') 5 3 []"

definition audioProject :: project where
  "audioProject = \<lparr> tracks =
     [ \<lparr> track_type = ''AUDIO'', clips = [mkClip ''music'' (Some ''asset2'') 0 5 []] \<rparr> ] \<rparr>"

definition overlapProject :: project where
  "overlapProject = \<lparr> tracks =
     [ \<lparr> track_type = ''VIDEO_A'', clips = [clipLeft, mkClip ''over'' (Some ''asset1'') 2 2 []] \<rparr> ] \<rparr>"

text \<open>Keyframe lists for the permutation properties: the overlay keyframes of the
  time-engine test, and two lists with a repeated keyframe time.\<close>

definition mkOverlayKf :: "real \<Rightarrow> real \<Rightarrow> real \<Rightarrow> real \<Rightarrow> real \<Rightarrow> real \<Rightarrow> overlay_kf" where
  "mkOverlayKf tm px py sc rot op =
     \<lparr> time = tm, kx = px, ky = py, scale_x = Some sc, scaleX = None, scale_y = Some sc,
       scaleY = None, rotation = rot, opacity = op, easing = None \<rparr>"

definition testOverlayKfs :: "overlay_kf list" where
  "testOverlayKfs = [mkOverlayKf 0 0 0 1 0 0, mkOverlayKf 2 200 100 2 90 1]"

definition dupSpeedKfs :: "speed_kf list" where
  "dupSpeedKfs = [\<lparr>time = 1, speed = 1\<rparr>, \<lparr>time = 1, speed = 3\<rparr>]"

definition dupOverlayKfs :: "overlay_kf list" where
  "dupOverlayKfs = [mkOverlayKf 1 0 0 1 0 1, mkOverlayKf 1 10 0 1 0 1]"

section \<open>Export jobs: the database and the submit route\<close>

text \<open>
  The rows of \<open>export_jobs\<close>, \<open>assets\<close> and \<open>projects\<close> that the export code reads and
  writes (timestamps left out), and the scratch directories that exist on disk.  \<open>None\<close> is
  SQL \<open>NULL\<close>.
\<close>

datatype job_status = QUEUED | RUNNING | COMPLETE | FAILED

record job =
  job_id :: string
  project_id :: string
  request_id :: "string option"
  status :: job_status
  progress :: real
  output_path :: "string option"
  error :: "string option"

record asset =
  asset_path :: string
  asset_duration :: "real option"
  asset_fps :: "real option"
  asset_type :: string

record world =
  projects :: "string list"
  assets :: "string \<Rightarrow> asset option"
  export_jobs :: "job list"
  dirs :: "string list"

text \<open>\<open>SELECT * FROM export_jobs WHERE request_id = ?\<close> and \<open>WHERE id = ?\<close>, first row.\<close>

definition jobByRequest :: "world \<Rightarrow> string \<Rightarrow> job option" where
  "jobByRequest w requestId = find (\<lambda>j. request_id j = Some requestId) (export_jobs w)"

definition jobById :: "world \<Rightarrow> string \<Rightarrow> job option" where
  "jobById w jobId = find (\<lambda>j. job_id j = jobId) (export_jobs w)"

text \<open>\<open>UPDATE export_jobs SET ... WHERE id = ?\<close>.\<close>

definition updateJob :: "string \<Rightarrow> (job \<Rightarrow> job) \<Rightarrow> world \<Rightarrow> world" where
  "updateJob jobId f w =
     w\<lparr>export_jobs := map (\<lambda>j. if job_id j = jobId then f j else j) (export_jobs w)\<rparr>"

datatype response = Json job | NotFound string | Unhandled

text \<open>
  \<open>router.post('/:projectId/export')\<close>.  \<open>uuids n\<close> is the value of the \<open>n\<close>-th call of
  \<open>uuid()\<close> in the request; \<open>body\<close> is \<open>req.body.requestId\<close>, absent or a string, the empty
  string being falsy.  The \<open>INSERT\<close> throws when the primary key \<open>id\<close> is already
  present (the unique \<open>request_id\<close> cannot be: the lookup just before found none).  The
  third component is the id of the job whose processing the route starts, if any.
\<close>

definition postExport ::
  "world \<Rightarrow> string \<Rightarrow> string option \<Rightarrow> (nat \<Rightarrow> string) \<Rightarrow> response \<times> world \<times> string option" where
  "postExport w projectId body uuids =
     (if projectId \<notin> set (projects w) then (NotFound ''Project not found'', w, None)
      else
        (let given = (case body of None \<Rightarrow> False | Some r \<Rightarrow> r \<noteq> []);
             requestId = (if given then the body else uuids 0)
         in case jobByRequest w requestId of
              Some existing \<Rightarrow> (Json existing, w, None)
            | None \<Rightarrow>
               (let jobId = uuids (if given then 0 else 1);
                    row = \<lparr> job_id = jobId, project_id = projectId, request_id = Some requestId,
                            status = QUEUED, progress = 0, output_path = None, error = None \<rparr>
                in if jobById w jobId \<noteq> None then (Unhandled, w, None)
                   else (let w' = w\<lparr>export_jobs := export_jobs w @ [row]\<rparr>
                         in case jobById w' jobId of
                              Some j \<Rightarrow> (Json j, w', Some jobId)
                            | None \<Rightarrow> (Unhandled, w', Some jobId)))))"

section \<open>Export: running the encoder\<close>

text \<open>
  What a spawned encoder process does: it closes with an exit code (\<open>None\<close> when killed by
  a signal) and the text it wrote to stderr, or the spawn itself fails with an error code
  and message.
\<close>

datatype proc_outcome = Close "int option" string | SpawnError string string

definition digits :: string where
  "digits = ''0123456789''"

function showNat :: "nat \<Rightarrow> string" where
  "showNat n = (if n < 10 then [digits ! n] else showNat (n div 10) @ [digits ! (n mod 10)])"
  by pat_completeness auto
termination
  by (relation "measure id") auto

declare showNat.simps [simp del]

definition showCode :: "int option \<Rightarrow> string" where
  "showCode c = (case c of None \<Rightarrow> ''null''
                 | Some i \<Rightarrow> if i < 0 then ''-'' @ showNat (nat (- i)) else showNat (nat i))"

text \<open>\<open>stderr.slice(-500)\<close>: the last 500 characters.\<close>

definition sliceLast :: "nat \<Rightarrow> string \<Rightarrow> string" where
  "sliceLast n s = drop (length s - n) s"

text \<open>\<open>runFfmpeg\<close>: the promise resolves (\<open>Inr\<close>) or rejects with an error message.\<close>

definition runFfmpeg :: "string \<Rightarrow> proc_outcome \<Rightarrow> string + unit" where
  "runFfmpeg ffmpegPath outcome =
     (case outcome of
        Close code err \<Rightarrow>
          if code = Some 0 then Inr ()
          else Inl (''FFmpeg exited with code '' @ showCode code @ '': '' @ sliceLast 500 err)
      | SpawnError code msg \<Rightarrow>
          if code = ''ENOENT''
          then Inl (''FFmpeg not found at '' @ [CHR 0x22] @ ffmpegPath @ [CHR 0x22]
                    @ ''. Please ensure FFmpeg is installed/in PATH.'')
          else Inl msg)"

text \<open>
  The encoder invocations, by what they are asked to do; the argument lists themselves are
  not modelled.  \<open>StillFrame\<close> and \<open>LoopStill\<close> are the two calls of a hold segment,
  \<open>SpeedRender\<close> the call of a normal segment (with the source's audio or with silence).
\<close>

datatype ffcall =
    StillFrame string real string
  | LoopStill string real real string
  | SpeedRender string real real real bool real real string
  | BlackFill real string
  | ConcatList "string list" string
  | OverlayPass "clip list" string
  | AudioMix "clip list" string

record env =
  TEMP :: string
  EXPORTS :: string
  FFMPEG_PATH :: string
  hasAudioStream :: "string \<Rightarrow> bool"
  encoder :: "nat \<Rightarrow> proc_outcome"

text \<open>\<open>outputPath.replace(/\.[^/.]+$/, "")\<close>: drop a final extension.\<close>

definition stripExt :: "string \<Rightarrow> string" where
  "stripExt p =
     (let r = rev p; ext = takeWhile (\<lambda>c. c \<noteq> CHR ''.'' \<and> c \<noteq> CHR ''/'') r
      in if ext \<noteq> [] \<and> length ext < length r \<and> r ! length ext = CHR ''.''
         then rev (drop (Suc (length ext)) r) else p)"

text \<open>\<open>renderClipSegment\<close>: the encoder calls it makes, in order.\<close>

definition renderClipSegment ::
  "env \<Rightarrow> string \<Rightarrow> real \<Rightarrow> real \<Rightarrow> real \<Rightarrow> string \<Rightarrow> real \<Rightarrow> bool \<Rightarrow> ffcall list" where
  "renderClipSegment e assetPath sourceStart sourceEnd avgSpeed outputPath fps0 isMuted =
     (let fps = (if fps0 = 0 then 30 else fps0);
          sourceDuration = sourceEnd - sourceStart;
          targetDuration = sourceDuration / max (1/100) avgSpeed
      in if avgSpeed < 1/100 then
           (let framePath = stripExt outputPath @ ''.jpg''
            in [StillFrame assetPath sourceStart framePath,
                LoopStill framePath targetDuration fps outputPath])
         else
           (let hasAudio = hasAudioStream e assetPath;
                ptsFactor = 1 / avgSpeed
            in [SpeedRender assetPath sourceStart sourceDuration ptsFactor
                  (hasAudio \<and> \<not> isMuted) (max (1/2) (min 100 avgSpeed)) targetDuration
                  outputPath]))"

section \<open>Export: segment planning\<close>

text \<open>
  One planned segment: the arguments of its \<open>renderClipSegment\<close> call and the entry pushed
  on \<open>segmentFiles\<close> (\<open>outputPath\<close> is the entry's \<open>path\<close>).  The arithmetic of the
  planner and of \<open>renderClipSegment\<close> is written with the exact operations on \<open>real\<close>.
\<close>

record segment =
  assetPath :: string
  sourceStart :: real
  sourceEnd :: real
  avgSpeed :: real
  outputPath :: string
  fps :: real
  isMuted :: bool
  seg_start :: real
  seg_duration :: real

text \<open>What stays fixed while one clip is planned.\<close>

record clip_ctx =
  tempDir :: string
  ci :: nat
  apath :: string
  afps :: real
  muted :: bool
  maxSourceDur :: real
  clipStart :: real

text \<open>
  The inner loop \<open>for (s = 0; s < steps; s++)\<close> of the subdivision: the segments planned
  from step \<open>s\<close> on and the value of \<open>accumSourceTime\<close> when the loop is left, by running
  out of steps or by \<open>break\<close>.
\<close>

function subChunks ::
  "clip_ctx \<Rightarrow> nat \<Rightarrow> real \<Rightarrow> real \<Rightarrow> real \<Rightarrow> nat \<Rightarrow> real \<Rightarrow> nat \<Rightarrow> real \<Rightarrow> segment list \<times> real" where
  "subChunks cx ki prevTime startSpeed endSpeed steps stepDur s accumSourceTime =
     (if s < steps then
        (let t0 = real s / real steps;
             t1 = (real s + 1) / real steps;
             s0 = startSpeed + (endSpeed - startSpeed) * t0;
             s1 = startSpeed + (endSpeed - startSpeed) * t1;
             avgS = (s0 + s1) / 2;
             subSource = stepDur * avgS;
             safeSourceEnd = min (accumSourceTime + subSource) (maxSourceDur cx);
             segPath = tempDir cx @ ''/clip_'' @ showNat (ci cx) @ ''_seg_'' @ showNat ki
                       @ ''_'' @ showNat s @ ''.mov'';
             seg = \<lparr> assetPath = apath cx, sourceStart = accumSourceTime,
                     sourceEnd = safeSourceEnd, avgSpeed = avgS, outputPath = segPath,
                     fps = afps cx, isMuted = muted cx,
                     seg_start = clipStart cx + prevTime + real s * stepDur,
                     seg_duration = stepDur \<rparr>;
             accum' = accumSourceTime + subSource
         in if accum' \<ge> maxSourceDur cx then ([seg], accum')
            else (let r = subChunks cx ki prevTime startSpeed endSpeed steps stepDur (Suc s) accum'
                  in (seg # fst r, snd r)))
      else ([], accumSourceTime))"
  by pat_completeness auto
termination
  by (relation "measure (\<lambda>(cx, ki, prevTime, startSpeed, endSpeed, steps, stepDur, s, a). steps - s)")
     auto

declare subChunks.simps [simp del]

text \<open>
  The outer loop \<open>for (ki = 0; ki <= sortedKfs.length; ki++)\<close>, from index \<open>ki\<close> on, with
  the loop variables \<open>prevTime\<close> and \<open>accumSourceTime\<close>.
\<close>

function kfLoop ::
  "clip_ctx \<Rightarrow> speed_kf list \<Rightarrow> real \<Rightarrow> real \<Rightarrow> nat \<Rightarrow> real \<Rightarrow> real \<Rightarrow> segment list \<times> real" where
  "kfLoop cx sortedKfs clipDuration lastDefinedSpeed ki prevTime accumSourceTime =
     (if ki \<le> length sortedKfs then
        (let kfTime0 = (if ki < length sortedKfs then time (sortedKfs ! ki) else clipDuration);
             kfTime = (if kfTime0 > clipDuration then clipDuration else kfTime0);
             segDuration = kfTime - prevTime
         in if segDuration \<le> 1/1000
            then kfLoop cx sortedKfs clipDuration lastDefinedSpeed (Suc ki) prevTime accumSourceTime
            else
              (let endSpeed = (if ki < length sortedKfs then speed (sortedKfs ! ki)
                               else lastDefinedSpeed);
                   startSpeed = (if ki = 0 then speed (sortedKfs ! 0)
                                 else if ki \<le> length sortedKfs then speed (sortedKfs ! (ki - 1))
                                 else lastDefinedSpeed);
                   steps = nat \<lceil>segDuration / (1/2)\<rceil>;
                   stepDur = segDuration / real steps;
                   r = subChunks cx ki prevTime startSpeed endSpeed steps stepDur 0 accumSourceTime
               in if snd r \<ge> maxSourceDur cx then r
                  else (let r2 = kfLoop cx sortedKfs clipDuration lastDefinedSpeed (Suc ki) kfTime (snd r)
                        in (fst r @ fst r2, snd r2))))
      else ([], accumSourceTime))"
  by pat_completeness auto
termination
  by (relation "measure (\<lambda>(cx, sortedKfs, d, l, ki, p, a). Suc (length sortedKfs) - ki)") auto

declare kfLoop.simps [simp del]

text \<open>\<open>asset.duration || 10000\<close> and \<open>asset.fps || 30\<close>: null and 0 are falsy.\<close>

definition assetMaxDur :: "asset \<Rightarrow> real" where
  "assetMaxDur a = (case asset_duration a of None \<Rightarrow> 10000 | Some d \<Rightarrow> if d = 0 then 10000 else d)"

definition assetFps :: "asset \<Rightarrow> real" where
  "assetFps a = (case asset_fps a of None \<Rightarrow> 30 | Some f \<Rightarrow> if f = 0 then 30 else f)"

definition clipCtx :: "string \<Rightarrow> nat \<Rightarrow> asset \<Rightarrow> clip \<Rightarrow> clip_ctx" where
  "clipCtx tmp i a c =
     \<lparr> tempDir = tmp, ci = i, apath = asset_path a, afps = assetFps a,
       muted = (map_of (properties c) ''muted'' = Some (JBool True)),
       maxSourceDur = assetMaxDur a, clipStart = start_time c \<rparr>"

text \<open>
  The subdivision branch of the loop body over \<open>videoClips\<close> (two or more speed
  keyframes): the segments planned and the final value of \<open>accumSourceTime\<close>.
\<close>

definition planSubdivided :: "string \<Rightarrow> nat \<Rightarrow> asset \<Rightarrow> clip \<Rightarrow> segment list \<times> real" where
  "planSubdivided tmp i a c =
     (let sortedKfs = sortByTime (speedKeyframes c);
          lastDefinedSpeed = (if length sortedKfs > 0 then speed (last sortedKfs) else 1)
      in kfLoop (clipCtx tmp i a c) sortedKfs (duration c) lastDefinedSpeed 0 0 (in_point c))"

text \<open>
  The body of the loop over \<open>videoClips\<close> for clip number \<open>ci\<close> whose asset row was found:
  the segments it plans, in the order they are rendered and pushed.
\<close>

definition planClip :: "string \<Rightarrow> nat \<Rightarrow> asset \<Rightarrow> clip \<Rightarrow> segment list" where
  "planClip tmp i a c =
     (let cx = clipCtx tmp i a c;
          speedKfs = speedKeyframes c
      in if length speedKfs \<le> 1 then
           (let spd = (if length speedKfs = 1 then speed (speedKfs ! 0) else 1);
                sourceNeeded = duration c * spd;
                actualSourceEnd = min (in_point c + sourceNeeded) (maxSourceDur cx);
                segPath = tmp @ ''/clip_'' @ showNat i @ ''_seg_0.mov''
            in [\<lparr> assetPath = apath cx, sourceStart = in_point c, sourceEnd = actualSourceEnd,
                   avgSpeed = spd, outputPath = segPath, fps = afps cx, isMuted = muted cx,
                   seg_start = start_time c, seg_duration = duration c \<rparr>])
         else fst (planSubdivided tmp i a c))"


text \<open>
  \<open>videoClips\<close>: the clips of the two video tracks, each with its track type, sorted with the
  comparator \<open>(a.start_time - b.start_time) || (a.trackType === 'VIDEO_B' ? -1 : 1)\<close>.
  The sort is an insertion sort driven by the comparator; the comparator orders two clips
  with different start times by start time.
\<close>

type_synonym vclip = "clip \<times> string"

definition cmpVideo :: "vclip \<Rightarrow> vclip \<Rightarrow> real" where
  "cmpVideo a b =
     (let d = start_time (fst a) - start_time (fst b)
      in if d \<noteq> 0 then d else if snd a = ''VIDEO_B'' then -1 else 1)"

fun insertVideo :: "vclip \<Rightarrow> vclip list \<Rightarrow> vclip list" where
  "insertVideo x [] = [x]"
| "insertVideo x (y # ys) = (if cmpVideo x y < 0 then x # y # ys else y # insertVideo x ys)"

definition sortVideo :: "vclip list \<Rightarrow> vclip list" where
  "sortVideo xs = foldl (\<lambda>acc x. insertVideo x acc) [] xs"

definition videoClips :: "project \<Rightarrow> vclip list" where
  "videoClips p =
     sortVideo (concat (map (\<lambda>tr. if track_type tr = ''VIDEO_A'' \<or> track_type tr = ''VIDEO_B''
                                  then map (\<lambda>c. (c, track_type tr)) (clips tr) else [])
                            (tracks p)))"

text \<open>\<open>db.prepare('SELECT * FROM assets WHERE id = ?').get(clip.asset_id)\<close>.\<close>

definition assetOf :: "world \<Rightarrow> clip \<Rightarrow> asset option" where
  "assetOf w c = (case asset_id c of None \<Rightarrow> None | Some a \<Rightarrow> assets w a)"

text \<open>
  Step 1 of \<open>exportProject\<close>: for every video clip with an asset, in order, its index and
  the segments planned for it; \<open>segmentFiles\<close> is their concatenation.
\<close>

definition plannedClips :: "world \<Rightarrow> string \<Rightarrow> project \<Rightarrow> (nat \<times> segment list) list" where
  "plannedClips w tmp p =
     concat (map (\<lambda>(i, vc). case assetOf w (fst vc) of
                               None \<Rightarrow> []
                             | Some a \<Rightarrow> [(i, planClip tmp i a (fst vc))])
                 (enumerate 0 (videoClips p)))"

definition segmentFiles :: "world \<Rightarrow> string \<Rightarrow> project \<Rightarrow> segment list" where
  "segmentFiles w tmp p = concat (map snd (plannedClips w tmp p))"

section \<open>Export: the pipeline and the job run\<close>

text \<open>
  The export issues its encoder calls one after the other and stops at the first that
  fails; what it plans does not depend on what the encoder returns.  So the run is a list
  of steps, each an encoder call or a progress report, executed in order against the
  encoder's outcomes.
\<close>

datatype step = Run ffcall | Report real

text \<open>The line of the concat list for one segment file.\<close>

definition concatLine :: "segment \<Rightarrow> string" where
  "concatLine g =
     ''file '' @ [CHR 0x27] @ map (\<lambda>ch. if ch = CHR 0x5C then CHR ''/'' else ch) (outputPath g)
     @ [CHR 0x27]"

definition renderSteps :: "env \<Rightarrow> segment \<Rightarrow> step list" where
  "renderSteps e g =
     map Run (renderClipSegment e (assetPath g) (sourceStart g) (sourceEnd g) (avgSpeed g)
                (outputPath g) (fps g) (isMuted g))"

definition totalDurationOf :: "project \<Rightarrow> real" where
  "totalDurationOf p =
     foldl (\<lambda>m c. max m (start_time c + duration c)) 0 (concat (map clips (tracks p)))"

definition phase1 :: "env \<Rightarrow> world \<Rightarrow> string \<Rightarrow> project \<Rightarrow> step list" where
  "phase1 e w tmp p =
     concat (map (\<lambda>(i, segs). concat (map (renderSteps e) segs)
                    @ [Report ((real (i + 1) / real (length (videoClips p))) * 40)])
                 (plannedClips w tmp p))"

definition phase2 :: "world \<Rightarrow> string \<Rightarrow> project \<Rightarrow> string \<Rightarrow> step list" where
  "phase2 w tmp p out =
     (if segmentFiles w tmp p = [] then [Run (BlackFill (totalDurationOf p) out)]
      else [Run (ConcatList (map concatLine (segmentFiles w tmp p)) out)])
     @ [Report 60]"

definition overlays :: "project \<Rightarrow> clip list" where
  "overlays p =
     concat (map (\<lambda>tr. if track_type tr = ''OVERLAY_TEXT'' \<or> track_type tr = ''OVERLAY_IMAGE''
                        then clips tr else []) (tracks p))"

definition phase3 :: "string \<Rightarrow> project \<Rightarrow> step list" where
  "phase3 tmp p =
     (if overlays p \<noteq> [] then [Run (OverlayPass (overlays p) (tmp @ ''/with_ov.mp4''))] else [])
     @ [Report 80]"

definition audioClips :: "project \<Rightarrow> clip list" where
  "audioClips p = concat (map clips (filter (\<lambda>tr. track_type tr = ''AUDIO'') (tracks p)))"

definition audFilters :: "world \<Rightarrow> project \<Rightarrow> clip list" where
  "audFilters w p =
     filter (\<lambda>c. case assetOf w c of None \<Rightarrow> False
                 | Some a \<Rightarrow> asset_type a = ''audio'' \<or> asset_type a = ''video'')
            (audioClips p)"

definition phase4 :: "world \<Rightarrow> string \<Rightarrow> project \<Rightarrow> step list" where
  "phase4 w tmp p =
     (if audioClips p \<noteq> [] \<and> audFilters w p \<noteq> []
      then [Run (AudioMix (audFilters w p) (tmp @ ''/with_aud.mp4''))] else [])
     @ [Report 100]"

text \<open>
  Executing the steps for job \<open>jobId\<close>: \<open>k\<close> counts the encoder calls made so far, and the
  outcome of call number \<open>k\<close> is \<open>encoder e k\<close>.  A progress report is the callback of
  \<open>processExportJob\<close>, which stores the value in the job row.
\<close>

fun runSteps :: "env \<Rightarrow> string \<Rightarrow> step list \<Rightarrow> nat \<Rightarrow> world \<Rightarrow> (string + unit) \<times> nat \<times> world" where
  "runSteps e jobId [] k w = (Inr (), k, w)"
| "runSteps e jobId (Report v # ss) k w =
     runSteps e jobId ss k (updateJob jobId (\<lambda>j. j\<lparr>progress := v\<rparr>) w)"
| "runSteps e jobId (Run c # ss) k w =
     (case runFfmpeg (FFMPEG_PATH e) (encoder e k) of
        Inl msg \<Rightarrow> (Inl msg, Suc k, w)
      | Inr u \<Rightarrow> runSteps e jobId ss (Suc k) w)"

definition scratchDir :: "env \<Rightarrow> string \<Rightarrow> string" where
  "scratchDir e jobId = TEMP e @ ''/'' @ jobId"

definition mkdir :: "string \<Rightarrow> world \<Rightarrow> world" where
  "mkdir d w = w\<lparr>dirs := (if d \<in> set (dirs w) then dirs w else d # dirs w)\<rparr>"

definition rmDir :: "string \<Rightarrow> world \<Rightarrow> world" where
  "rmDir d w = w\<lparr>dirs := filter (\<lambda>x. x \<noteq> d) (dirs w)\<rparr>"

text \<open>
  \<open>exportProject\<close>: the result (\<open>Inl\<close> the message of the error thrown, \<open>Inr\<close> the output
  path), the number of encoder calls made, and the world afterwards.  Both the normal exit
  and the \<open>catch\<close> block remove the scratch directory.
\<close>

definition exportProject ::
  "env \<Rightarrow> project \<Rightarrow> string \<Rightarrow> world \<Rightarrow> (string + string) \<times> nat \<times> world" where
  "exportProject e p jobId w =
     (let tmp = scratchDir e jobId;
          w1 = mkdir tmp w;
          out = EXPORTS e @ ''/'' @ jobId @ ''.mp4''
      in if totalDurationOf p \<le> 0 then (Inl ''No content on timeline'', 0, rmDir tmp w1)
         else (case runSteps e jobId
                      (phase1 e w1 tmp p @ phase2 w1 tmp p out @ phase3 tmp p @ phase4 w1 tmp p)
                      0 w1 of
                 (Inl msg, k, w2) \<Rightarrow> (Inl msg, k, rmDir tmp w2)
               | (Inr u, k, w2) \<Rightarrow> (Inr out, k, rmDir tmp w2)))"

text \<open>
  \<open>processExportJob\<close> on the loaded project snapshot: the number of encoder calls the run
  made and the world afterwards.
\<close>

definition processExportJob :: "env \<Rightarrow> project \<Rightarrow> string \<Rightarrow> world \<Rightarrow> nat \<times> world" where
  "processExportJob e p jobId w =
     (let w1 = updateJob jobId (\<lambda>j. j\<lparr>status := RUNNING\<rparr>) w
      in case exportProject e p jobId w1 of
           (Inr out, k, w2) \<Rightarrow>
             (k, updateJob jobId
                   (\<lambda>j. j\<lparr>status := COMPLETE, progress := 100, output_path := Some out\<rparr>) w2)
         | (Inl msg, k, w2) \<Rightarrow>
             (k, updateJob jobId (\<lambda>j. j\<lparr>status := FAILED, error := Some msg\<rparr>) w2))"

text \<open>
  The timeline starts of a list of planned segments are in order and all lie between \<open>lo\<close>
  and \<open>hi\<close>.
\<close>

definition startsWithin :: "real \<Rightarrow> real \<Rightarrow> segment list \<Rightarrow> bool" where
  "startsWithin lo hi segs =
     (sorted (map seg_start segs) \<and> list_all (\<lambda>g. lo \<le> seg_start g \<and> seg_start g \<le> hi) segs)"

text \<open>
  A project with overlapping clips on the two video tracks: on VIDEO_A a two-second clip
  from 0 with two speed keyframes (so it is subdivided), on VIDEO_B a one-second clip from 1.
\<close>

definition crossProject :: project where
  "crossProject = \<lparr> tracks =
     [ \<lparr> track_type = ''VIDEO_A'',
         clips = [mkClip ''a'' (Some ''asset1'') 0 2
                    [\<lparr>time = 0, speed = 1\<rparr>, \<lparr>time = 2, speed = 1\<rparr>]] \<rparr>,
       \<lparr> track_type = ''VIDEO_B'', clips = [mkClip ''b'' (Some ''asset1'') 1 1 []] \<rparr> ] \<rparr>"

definition longAsset :: asset where
  "longAsset = \<lparr> asset_path = ''a.mp4'', asset_duration = Some 100, asset_fps = Some 30,
                 asset_type = ''video'' \<rparr>"

definition demoWorld :: world where
  "demoWorld = \<lparr> projects = [''p1''],
                 assets = (\<lambda>i. if i = ''asset1'' then Some longAsset else None),
                 export_jobs = [\<lparr> job_id = ''j1'', project_id = ''p1'', request_id = Some ''r1'',
                                   status = QUEUED, progress = 0, output_path = None,
                                   error = None \<rparr>],
                 dirs = [] \<rparr>"

text \<open>The segments planned for one entry of the enumerated video clips.\<close>

definition clipSegs :: "world \<Rightarrow> string \<Rightarrow> nat \<times> vclip \<Rightarrow> segment list" where
  "clipSegs w tmp x =
     (case assetOf w (fst (snd x)) of None \<Rightarrow> [] | Some a \<Rightarrow> planClip tmp (fst x) a (fst (snd x)))"

text \<open>
  Two clips that abut at a boundary that is not an exact sum: the first starts at the
  binary64 value of 0.1 and lasts the binary64 value of 0.7; the second starts at their
  binary64 sum 0.7999999999999999, which is below the exact sum of the two.
\<close>

definition decimalLeft :: clip where
  "decimalLeft = mkClip ''dl'' None (rnd (1/10)) (rnd (7/10)) []"

definition decimalRight :: clip where
  "decimalRight = mkClip ''dr'' None (fadd (rnd (1/10)) (rnd (7/10))) 1 []"

text \<open>
  A clip that starts where \<open>clipLeft\<close> ends and whose positive duration \<open>2^(-60)\<close> is
  lost in the binary64 sum \<open>5 + 2^(-60) = 5\<close>, and a track holding the two.
\<close>

definition tinyClip :: clip where
  "tinyClip = mkClip ''tiny'' (Some ''asset1'') 5 (1 / 2 ^ 60) []"

definition tinyProject :: project where
  "tinyProject = \<lparr> tracks = [ \<lparr> track_type = ''VIDEO_A'', clips = [clipLeft, tinyClip] \<rparr> ] \<rparr>"

definition abutProject :: project where
  "abutProject = \<lparr> tracks = [ \<lparr> track_type = ''VIDEO_A'', clips = [clipLeft, clipRight] \<rparr> ] \<rparr>"

text \<open>An environment whose encoder binary is missing, and one whose first call exits with 1.\<close>

definition missingEnv :: env where
  "missingEnv = \<lparr> TEMP = ''storage/temp'', EXPORTS = ''storage/exports'', FFMPEG_PATH = ''ffmpeg'',
                  hasAudioStream = (\<lambda>f. True),
                  encoder = (\<lambda>k. SpawnError ''ENOENT'' ''spawn ffmpeg ENOENT'') \<rparr>"

definition brokenEnv :: env where
  "brokenEnv = missingEnv\<lparr> encoder := (\<lambda>k. Close (Some 1) ''Invalid data found'') \<rparr>"

text \<open>The row a submit call inserts, and a source of identifiers for the examples.\<close>

definition newJob :: "string \<Rightarrow> string \<Rightarrow> string \<Rightarrow> job" where
  "newJob jobId projectId requestId =
     \<lparr> job_id = jobId, project_id = projectId, request_id = Some requestId,
       status = QUEUED, progress = 0, output_path = None, error = None \<rparr>"

text \<open>
  The request token and the job id of a submit call: \<open>req.body.requestId || uuid()\<close> and
  the \<open>uuid()\<close> that follows it.
\<close>

definition requestIdOf :: "string option \<Rightarrow> (nat \<Rightarrow> string) \<Rightarrow> string" where
  "requestIdOf body uuids =
     (case body of None \<Rightarrow> uuids 0 | Some r \<Rightarrow> if r = [] then uuids 0 else r)"

definition jobIdOf :: "string option \<Rightarrow> (nat \<Rightarrow> string) \<Rightarrow> string" where
  "jobIdOf body uuids =
     (case body of None \<Rightarrow> uuids 1 | Some r \<Rightarrow> if r = [] then uuids 1 else uuids 0)"

definition demoUuids :: "nat \<Rightarrow> string" where
  "demoUuids n = (if n = 0 then ''u0'' else ''u1'')"

text \<open>A generator whose every identifier is the id of the job already stored.\<close>

definition usedUuids :: "nat \<Rightarrow> string" where
  "usedUuids n = ''j1''"

definition demoJob :: job where
  "demoJob = \<lparr> job_id = ''j1'', project_id = ''p1'', request_id = Some ''r1'',
               status = QUEUED, progress = 0, output_path = None, error = None \<rparr>"

text \<open>A one-second clip ramping from speed 1 to speed 3, on an asset of 1.2 seconds.\<close>

definition rampClip :: clip where
  "rampClip = mkClip ''ramp'' (Some ''asset1'') 0 1 [\<lparr>time = 0, speed = 1\<rparr>, \<lparr>time = 1, speed = 3\<rparr>]"

definition shortAsset :: asset where
  "shortAsset = \<lparr> asset_path = ''a.mp4'', asset_duration = Some (6/5), asset_fps = Some 30,
                  asset_type = ''video'' \<rparr>"

section \<open>Properties of the binary64 operations\<close>

text \<open>
  The equations that evaluate \<open>rnd\<close> and the four operations on a given number.
\<close>

lemmas rnd_eval = rnd_def binExp_def expUp.simps expDown.simps pow2_def roundEven_def Let_def
  fadd_def fsub_def fmul_def fdiv_def

text \<open>
  Checks of \<open>rnd\<close> against known binary64 facts: the doubles nearest to 0.1 and to 7/6;
  0.1 + 0.7 is 0.7999999999999999; a value with at most 53 significant bits is kept; a tie
  goes to the even neighbour (\<open>1 + 2^(-53)\<close> to 1, \<open>1 + 3 * 2^(-53)\<close> to \<open>1 + 2^(-51)\<close>).
\<close>

lemma rnd_samples:
  "rnd (1/10) = 3602879701896397 / 2 ^ 55 \<and>
   rnd (7/6) = 5254199565265579 / 2 ^ 52 \<and>
   fadd (rnd (1/10)) (rnd (7/10)) = 7205759403792793 / 2 ^ 53 \<and>
   rnd (3/2) = 3/2 \<and> rnd (- 5) = - 5 \<and> rnd (1 - 1 / 2 ^ 53) = 1 - 1 / 2 ^ 53 \<and>
   rnd (1 + 1 / 2 ^ 53) = 1 \<and> rnd (1 + 3 / 2 ^ 53) = 1 + 1 / 2 ^ 51"
  by (simp add: rnd_eval)

section \<open>Properties of the keyframe math\<close>

text \<open>
  C1: on the linear ramp \<open>[{0,1},{2,3}]\<close> the source time is 1.5 at local time 1 and 4 at
  local time 2; on the hold list \<open>[{0,1},{1,0},{3,0},{4,1}]\<close> it is 0.5 at local times 1, 2
  and 3 and 1 at local time 4, so the speed-0 interval adds nothing.
\<close>

theorem mapClipSourceTime_ramp_hold_values:
  "mapClipSourceTime 1 rampKfs = 3/2 \<and> mapClipSourceTime 2 rampKfs = 4 \<and>
   mapClipSourceTime 1 holdKfs = 1/2 \<and> mapClipSourceTime 2 holdKfs = 1/2 \<and>
   mapClipSourceTime 3 holdKfs = 1/2 \<and> mapClipSourceTime 4 holdKfs = 1"
  by (simp add: mapClipSourceTime_def sortByTime_def rampKfs_def holdKfs_def rnd_eval)


subsection \<open>Monotonicity of the source-time mapping\<close>

text \<open>
  C2 (the code at the failing input): the keyframes ramp from speed 4 at time 0 down to
  speed 1 at time 1, all speeds non-negative, and the two local times are the binary64
  values \<open>1 - 2^(-52)\<close> and the larger \<open>1 - 2^(-53)\<close>.  At the smaller time the code
  returns 2.5, at the larger one 2.4999999999999996 (\<open>2.5 - 2^(-51)\<close>): the source time
  goes backwards.
\<close>

theorem mapClipSourceTime_rounding_decrease:
  "list_all (\<lambda>k. 0 \<le> speed k) slowdownKfs \<and>
   rnd belowOne2 = belowOne2 \<and> rnd belowOne1 = belowOne1 \<and>
   0 \<le> belowOne2 \<and> belowOne2 \<le> belowOne1 \<and>
   mapClipSourceTime belowOne2 slowdownKfs = 5/2 \<and>
   mapClipSourceTime belowOne1 slowdownKfs = 5/2 - 1 / 2 ^ 51 \<and>
   mapClipSourceTime belowOne1 slowdownKfs < mapClipSourceTime belowOne2 slowdownKfs"
proof -
  have a: "mapClipSourceTime belowOne2 slowdownKfs = 5/2"
    by (simp add: mapClipSourceTime_def sortByTime_def slowdownKfs_def belowOne2_def rnd_eval)
  have b: "mapClipSourceTime belowOne1 slowdownKfs = 5/2 - 1 / 2 ^ 51"
    by (simp add: mapClipSourceTime_def sortByTime_def slowdownKfs_def belowOne1_def rnd_eval)
  have c: "rnd belowOne2 = belowOne2 \<and> rnd belowOne1 = belowOne1"
    by (simp add: belowOne1_def belowOne2_def rnd_eval)
  have d: "list_all (\<lambda>k. 0 \<le> speed k) slowdownKfs \<and> 0 \<le> belowOne2 \<and> belowOne2 \<le> belowOne1"
    by (simp add: slowdownKfs_def belowOne1_def belowOne2_def)
  show ?thesis unfolding a b using c d by simp
qed

subsection \<open>Reordering the keyframes\<close>

lemma sortByTime_permutation:
  assumes "mset ps = mset kfs" "distinct (map time kfs)"
  shows "sortByTime ps = sortByTime kfs"
proof -
  have "set ps = set kfs" using assms(1) by (rule mset_eq_setD)
  moreover have "inj_on time (set kfs)" using assms(2) by (simp add: distinct_map)
  ultimately have "inj_on time (set ps)" by simp
  moreover have "mset ps = mset (sort_key time kfs)" using assms(1) by simp
  ultimately show ?thesis
    unfolding sortByTime_def by (intro sort_key_inj_key_eq) simp_all
qed

lemma empty_permutation: "mset ps = mset kfs \<Longrightarrow> (ps = []) = (kfs = [])"
  by (metis mset_zero_iff)

text \<open>
  C9 (as amended): the keyframe functions give the same result on every reordering of a
  keyframe list whose keyframe times are pairwise distinct.
\<close>

theorem keyframe_math_permutation_invariant:
  "(mset ps = mset kfs \<and> distinct (map time kfs) \<longrightarrow>
      mapClipSourceTime t kfs = mapClipSourceTime t ps \<and>
      getSpeedAtTime t kfs = getSpeedAtTime t ps) \<and>
   (mset po = mset okfs \<and> distinct (map time okfs) \<longrightarrow>
      interpolateOverlay t okfs = interpolateOverlay t po)"
proof (intro conjI impI)
  assume h: "mset ps = mset kfs \<and> distinct (map time kfs)"
  have s: "sortByTime ps = sortByTime kfs" using h sortByTime_permutation by blast
  have e: "(ps = []) = (kfs = [])" using h empty_permutation by blast
  show "mapClipSourceTime t kfs = mapClipSourceTime t ps"
    by (simp add: mapClipSourceTime_def s e)
  show "getSpeedAtTime t kfs = getSpeedAtTime t ps"
    by (simp add: getSpeedAtTime_def s e)
next
  assume h: "mset po = mset okfs \<and> distinct (map time okfs)"
  have s: "sortByTime po = sortByTime okfs" using h sortByTime_permutation by blast
  have e: "(po = []) = (okfs = [])" using h empty_permutation by blast
  show "interpolateOverlay t okfs = interpolateOverlay t po"
    by (simp add: interpolateOverlay_def s e)
qed

theorem keyframe_math_permutation_invariant_witness:
  "mset (rev rampKfs) = mset rampKfs \<and> distinct (map time rampKfs) \<and>
   mapClipSourceTime 1 rampKfs = mapClipSourceTime 1 (rev rampKfs) \<and>
   getSpeedAtTime 1 rampKfs = getSpeedAtTime 1 (rev rampKfs) \<and>
   mset (rev testOverlayKfs) = mset testOverlayKfs \<and> distinct (map time testOverlayKfs) \<and>
   interpolateOverlay 1 testOverlayKfs = interpolateOverlay 1 (rev testOverlayKfs)"
proof -
  have a: "mset (rev rampKfs) = mset rampKfs \<and> distinct (map time rampKfs)"
    by (simp add: rampKfs_def)
  have b: "mset (rev testOverlayKfs) = mset testOverlayKfs \<and> distinct (map time testOverlayKfs)"
    by (simp add: testOverlayKfs_def mkOverlayKf_def)
  from keyframe_math_permutation_invariant
         [of "rev rampKfs" rampKfs 1 "rev testOverlayKfs" testOverlayKfs] a b
  show ?thesis by blast
qed

text \<open>
  The claim as stated fails on a list with a repeated keyframe time: the sort is stable, so
  the two keyframes at time 1 stay in input order, and each function reads a different
  keyframe first in the list and in its reversal.
\<close>

theorem keyframe_math_permutation_counterexample:
  "mset (rev dupSpeedKfs) = mset dupSpeedKfs \<and>
   mapClipSourceTime (1/2) dupSpeedKfs = 1/2 \<and>
   mapClipSourceTime (1/2) (rev dupSpeedKfs) = 3/2 \<and>
   getSpeedAtTime 0 dupSpeedKfs = 1 \<and>
   getSpeedAtTime 0 (rev dupSpeedKfs) = 3 \<and>
   mset (rev dupOverlayKfs) = mset dupOverlayKfs \<and>
   t_x (interpolateOverlay 0 dupOverlayKfs) = 0 \<and>
   t_x (interpolateOverlay 0 (rev dupOverlayKfs)) = 10"
  by (simp add: dupSpeedKfs_def dupOverlayKfs_def mkOverlayKf_def mapClipSourceTime_def
      getSpeedAtTime_def interpolateOverlay_def sortByTime_def kfToTransform_def rnd_eval)

section \<open>Properties of the timeline evaluation\<close>

lemma evalClip_out: "\<not> inExtent t c \<Longrightarrow> evalClip ty t r c = r"
  unfolding evalClip_def inExtent_def Let_def by (simp only: not_le not_less de_Morgan_conj if_True split: if_splits)

lemma evalClip_in:
  assumes "inExtent t c"
  shows "evalClip ty t r c =
     (if ty = ''VIDEO_A'' then r\<lparr>videoA := Some (videoEntry t c)\<rparr>
      else if ty = ''VIDEO_B'' then r\<lparr>videoB := Some (videoEntry t c)\<rparr>
      else if ty = ''OVERLAY_TEXT'' then r\<lparr>overlayTexts := overlayTexts r @ [overlayEntry t c]\<rparr>
      else if ty = ''OVERLAY_IMAGE'' then r\<lparr>overlayImages := overlayImages r @ [overlayEntry t c]\<rparr>
      else r)"
proof -
  have g: "\<not> (t < start_time c \<or> t \<ge> fadd (start_time c) (duration c))"
    using assms by (simp add: inExtent_def not_less not_le)
  consider (a) "ty = ''VIDEO_A''" | (b) "ty = ''VIDEO_B''" | (c) "ty = ''OVERLAY_TEXT''"
    | (d) "ty = ''OVERLAY_IMAGE''"
    | (e) "ty \<noteq> ''VIDEO_A''" "ty \<noteq> ''VIDEO_B''" "ty \<noteq> ''OVERLAY_TEXT''" "ty \<noteq> ''OVERLAY_IMAGE''"
    by blast
  then show ?thesis
  proof cases
    case a then show ?thesis unfolding evalClip_def Let_def if_not_P[OF g] by simp
  next
    case b then show ?thesis unfolding evalClip_def Let_def if_not_P[OF g] by simp
  next
    case c then show ?thesis unfolding evalClip_def Let_def if_not_P[OF g] by simp
  next
    case d then show ?thesis unfolding evalClip_def Let_def if_not_P[OF g] by simp
  next
    case e then show ?thesis unfolding evalClip_def Let_def if_not_P[OF g] by simp
  qed
qed


lemma evalClip_eq:
  "evalClip ty t r c = (if inExtent t c then
     (if ty = ''VIDEO_A'' then r\<lparr>videoA := Some (videoEntry t c)\<rparr>
      else if ty = ''VIDEO_B'' then r\<lparr>videoB := Some (videoEntry t c)\<rparr>
      else if ty = ''OVERLAY_TEXT'' then r\<lparr>overlayTexts := overlayTexts r @ [overlayEntry t c]\<rparr>
      else if ty = ''OVERLAY_IMAGE'' then r\<lparr>overlayImages := overlayImages r @ [overlayEntry t c]\<rparr>
      else r) else r)"
  using evalClip_in[of t c ty r] evalClip_out[of t c ty r] by (cases "inExtent t c") simp_all

lemma pick_Nil: "pick t v [] = v"
  by (simp add: pick_def lastOf_def)

lemma pick_snoc: "pick t v (cs @ [c]) = (if inExtent t c then Some (videoEntry t c) else pick t v cs)"
  by (simp add: pick_def lastOf_def)

lemma pick_append: "pick t v (cs @ ds) = pick t (pick t v cs) ds"
  by (simp add: pick_def lastOf_def split: option.splits)

lemma audio_evalClip: "audio (evalClip ty t r c) = audio r"
  unfolding evalClip_eq by simp

lemma audio_foldl_evalClip: "audio (foldl (evalClip ty t) r cs) = audio r"
  by (induction cs rule: rev_induct) (simp_all add: audio_evalClip)

lemma audio_evalTrack: "audio (evalTrack t r tr) = audio r"
  by (simp add: evalTrack_def audio_foldl_evalClip)

lemma audio_foldl_evalTrack: "audio (foldl (evalTrack t) r trs) = audio r"
  by (induction trs rule: rev_induct) (simp_all add: audio_evalTrack)

lemma overlayTexts_evalClip:
  "overlayTexts (evalClip ty t r c) = overlayTexts r @ (if ty = ''OVERLAY_TEXT'' \<and> inExtent t c then [overlayEntry t c] else [])"
  unfolding evalClip_eq by simp

lemma overlayTexts_foldl_evalClip:
  "overlayTexts (foldl (evalClip ty t) r cs)
     = overlayTexts r @ (if ty = ''OVERLAY_TEXT'' then map (overlayEntry t) (filter (inExtent t) cs) else [])"
  by (induction cs rule: rev_induct) (simp_all add: overlayTexts_evalClip)

lemma overlayTexts_evalTrack:
  "overlayTexts (evalTrack t r tr)
     = overlayTexts r @ (if track_type tr = ''OVERLAY_TEXT'' then map (overlayEntry t) (filter (inExtent t) (clips tr)) else [])"
  by (simp add: evalTrack_def overlayTexts_foldl_evalClip)

lemma overlayTexts_foldl_evalTrack:
  "overlayTexts (foldl (evalTrack t) r trs)
     = overlayTexts r @ map (overlayEntry t) (filter (inExtent t) (clipsOn ''OVERLAY_TEXT'' \<lparr>tracks = trs\<rparr>))"
  by (induction trs rule: rev_induct) (simp_all add: overlayTexts_evalTrack clipsOn_def)

lemma overlayImages_evalClip:
  "overlayImages (evalClip ty t r c) = overlayImages r @ (if ty = ''OVERLAY_IMAGE'' \<and> inExtent t c then [overlayEntry t c] else [])"
  unfolding evalClip_eq by simp

lemma overlayImages_foldl_evalClip:
  "overlayImages (foldl (evalClip ty t) r cs)
     = overlayImages r @ (if ty = ''OVERLAY_IMAGE'' then map (overlayEntry t) (filter (inExtent t) cs) else [])"
  by (induction cs rule: rev_induct) (simp_all add: overlayImages_evalClip)

lemma overlayImages_evalTrack:
  "overlayImages (evalTrack t r tr)
     = overlayImages r @ (if track_type tr = ''OVERLAY_IMAGE'' then map (overlayEntry t) (filter (inExtent t) (clips tr)) else [])"
  by (simp add: evalTrack_def overlayImages_foldl_evalClip)

lemma overlayImages_foldl_evalTrack:
  "overlayImages (foldl (evalTrack t) r trs)
     = overlayImages r @ map (overlayEntry t) (filter (inExtent t) (clipsOn ''OVERLAY_IMAGE'' \<lparr>tracks = trs\<rparr>))"
  by (induction trs rule: rev_induct) (simp_all add: overlayImages_evalTrack clipsOn_def)

lemma videoA_evalClip:
  "videoA (evalClip ty t r c) = (if ty = ''VIDEO_A'' \<and> inExtent t c then Some (videoEntry t c) else videoA r)"
  unfolding evalClip_eq by simp

lemma videoA_foldl_evalClip:
  "videoA (foldl (evalClip ty t) r cs) = (if ty = ''VIDEO_A'' then pick t (videoA r) cs else videoA r)"
  by (induction cs rule: rev_induct) (auto simp: videoA_evalClip pick_Nil pick_snoc)

lemma videoA_evalTrack:
  "videoA (evalTrack t r tr) = (if track_type tr = ''VIDEO_A'' then pick t (videoA r) (clips tr) else videoA r)"
  by (simp add: evalTrack_def videoA_foldl_evalClip)

lemma videoA_foldl_evalTrack:
  "videoA (foldl (evalTrack t) r trs) = pick t (videoA r) (clipsOn ''VIDEO_A'' \<lparr>tracks = trs\<rparr>)"
  by (induction trs rule: rev_induct) (simp_all add: videoA_evalTrack clipsOn_def pick_Nil pick_append)

lemma videoB_evalClip:
  "videoB (evalClip ty t r c) = (if ty = ''VIDEO_B'' \<and> inExtent t c then Some (videoEntry t c) else videoB r)"
  unfolding evalClip_eq by simp

lemma videoB_foldl_evalClip:
  "videoB (foldl (evalClip ty t) r cs) = (if ty = ''VIDEO_B'' then pick t (videoB r) cs else videoB r)"
  by (induction cs rule: rev_induct) (auto simp: videoB_evalClip pick_Nil pick_snoc)

lemma videoB_evalTrack:
  "videoB (evalTrack t r tr) = (if track_type tr = ''VIDEO_B'' then pick t (videoB r) (clips tr) else videoB r)"
  by (simp add: evalTrack_def videoB_foldl_evalClip)

lemma videoB_foldl_evalTrack:
  "videoB (foldl (evalTrack t) r trs) = pick t (videoB r) (clipsOn ''VIDEO_B'' \<lparr>tracks = trs\<rparr>)"
  by (induction trs rule: rev_induct) (simp_all add: videoB_evalTrack clipsOn_def pick_Nil pick_append)


lemma pick_None_eq: "pick t None cs = None \<longleftrightarrow> filter (inExtent t) cs = []"
  by (simp add: pick_def lastOf_def)

lemma pick_None_iff: "pick t None cs = lastOf (map (videoEntry t) (filter (inExtent t) cs))"
  by (simp add: pick_def lastOf_def last_map)


text \<open>
  C4 (as amended): a clip is active exactly on its half-open extent, \<open>start_time \<le> t <
  start_time + duration\<close> with the sum as the code computes it.  The overlay lists hold the
  entries of exactly the clips whose extent contains the query time, in order; a video
  field is set exactly when some clip of that track type contains the query time.  At the
  shared boundary of two abutting clips (the second starts at the computed end of the
  first, and its own computed end lies above its start) only the second contains the
  boundary time, and a track holding just the two yields the single entry of the second.
  When no clip of any track contains the query time the result is the empty one: both
  video fields null, both overlay lists empty.
\<close>

theorem evaluateTimeline_half_open:
  "overlayTexts (evaluateTimeline (Some p) t)
     = map (overlayEntry t) (filter (inExtent t) (clipsOn ''OVERLAY_TEXT'' p)) \<and>
   overlayImages (evaluateTimeline (Some p) t)
     = map (overlayEntry t) (filter (inExtent t) (clipsOn ''OVERLAY_IMAGE'' p)) \<and>
   (videoA (evaluateTimeline (Some p) t) \<noteq> None
      \<longleftrightarrow> (\<exists>c \<in> set (clipsOn ''VIDEO_A'' p). inExtent t c)) \<and>
   (videoB (evaluateTimeline (Some p) t) \<noteq> None
      \<longleftrightarrow> (\<exists>c \<in> set (clipsOn ''VIDEO_B'' p). inExtent t c)) \<and>
   (inExtent t c \<longleftrightarrow> start_time c \<le> t \<and> t < fadd (start_time c) (duration c)) \<and>
   (start_time c2 = fadd (start_time c1) (duration c1) \<and>
    start_time c2 < fadd (start_time c2) (duration c2) \<longrightarrow>
      inExtent (start_time c2) c2 \<and> \<not> inExtent (start_time c2) c1 \<and>
      overlayTexts (evaluateTimeline
          (Some \<lparr>tracks = [\<lparr>track_type = ''OVERLAY_TEXT'', clips = [c1, c2]\<rparr>]\<rparr>) (start_time c2))
        = [overlayEntry (start_time c2) c2]) \<and>
   ((\<forall>tr \<in> set (tracks p). \<forall>c \<in> set (clips tr). \<not> inExtent t c) \<longrightarrow>
      evaluateTimeline (Some p) t = emptyLayers)"
proof (intro conjI impI)
  show "overlayTexts (evaluateTimeline (Some p) t)
     = map (overlayEntry t) (filter (inExtent t) (clipsOn ''OVERLAY_TEXT'' p))"
    by (simp add: evaluateTimeline_def overlayTexts_foldl_evalTrack emptyLayers_def clipsOn_def)
  show "overlayImages (evaluateTimeline (Some p) t)
     = map (overlayEntry t) (filter (inExtent t) (clipsOn ''OVERLAY_IMAGE'' p))"
    by (simp add: evaluateTimeline_def overlayImages_foldl_evalTrack emptyLayers_def clipsOn_def)
  show "(videoA (evaluateTimeline (Some p) t) \<noteq> None)
      = (\<exists>c \<in> set (clipsOn ''VIDEO_A'' p). inExtent t c)"
    by (simp add: evaluateTimeline_def videoA_foldl_evalTrack emptyLayers_def clipsOn_def
        pick_None_eq lastOf_def filter_empty_conv)
  show "(videoB (evaluateTimeline (Some p) t) \<noteq> None)
      = (\<exists>c \<in> set (clipsOn ''VIDEO_B'' p). inExtent t c)"
    by (simp add: evaluateTimeline_def videoB_foldl_evalTrack emptyLayers_def clipsOn_def
        pick_None_eq lastOf_def filter_empty_conv)
  show "inExtent t c = (start_time c \<le> t \<and> t < fadd (start_time c) (duration c))"
    by (simp add: inExtent_def)
next
  assume ab: "start_time c2 = fadd (start_time c1) (duration c1) \<and>
              start_time c2 < fadd (start_time c2) (duration c2)"
  then have "start_time c2 < fadd (start_time c2) (duration c2)" by (rule conjunct2)
  then show in2: "inExtent (start_time c2) c2" by (simp add: inExtent_def)
  from ab show out1: "\<not> inExtent (start_time c2) c1" by (simp add: inExtent_def)
  show "overlayTexts (evaluateTimeline
          (Some \<lparr>tracks = [\<lparr>track_type = ''OVERLAY_TEXT'', clips = [c1, c2]\<rparr>]\<rparr>) (start_time c2))
        = [overlayEntry (start_time c2) c2]"
    using in2 out1
    by (simp add: evaluateTimeline_def overlayTexts_evalTrack emptyLayers_def)
next
  assume none: "\<forall>tr \<in> set (tracks p). \<forall>c \<in> set (clips tr). \<not> inExtent t c"
  have clip_noop: "foldl (evalClip ty t) r cs = r" if "\<forall>c \<in> set cs. \<not> inExtent t c" for ty r cs
    using that by (induction cs arbitrary: r) (simp_all add: evalClip_out)
  have "foldl (evalTrack t) r trs = r" if "\<forall>tr \<in> set trs. \<forall>c \<in> set (clips tr). \<not> inExtent t c"
    for r trs
    using that by (induction trs arbitrary: r) (simp_all add: evalTrack_def clip_noop)
  with none show "evaluateTimeline (Some p) t = emptyLayers"
    by (simp add: evaluateTimeline_def)
qed

text \<open>
  The witness takes the boundary 0.7999999999999999 of the two decimal clips, where the
  computed end of the first is below the exact sum of its start and duration, and the
  test project at times 6 (nothing active) and 2.5.
\<close>

theorem evaluateTimeline_half_open_witness:
  "start_time decimalRight = fadd (start_time decimalLeft) (duration decimalLeft) \<and>
   start_time decimalRight < fadd (start_time decimalRight) (duration decimalRight) \<and>
   start_time decimalRight = 7205759403792793 / 2 ^ 53 \<and>
   start_time decimalRight < start_time decimalLeft + duration decimalLeft \<and>
   inExtent (start_time decimalRight) decimalRight \<and>
   \<not> inExtent (start_time decimalRight) decimalLeft \<and>
   overlayTexts (evaluateTimeline
       (Some \<lparr>tracks = [\<lparr>track_type = ''OVERLAY_TEXT'', clips = [decimalLeft, decimalRight]\<rparr>]\<rparr>)
       (start_time decimalRight))
     = [overlayEntry (start_time decimalRight) decimalRight] \<and>
   list_all (\<lambda>tr. list_all (\<lambda>c. \<not> inExtent 6 c) (clips tr)) (tracks testProject) \<and>
   evaluateTimeline (Some testProject) 6 = emptyLayers \<and>
   (videoA (evaluateTimeline (Some testProject) (5/2)) \<noteq> None) \<and>
   length (overlayTexts (evaluateTimeline (Some testProject) (5/2))) = 1"
proof -
  have ab: "start_time decimalRight = fadd (start_time decimalLeft) (duration decimalLeft) \<and>
            start_time decimalRight < fadd (start_time decimalRight) (duration decimalRight)"
    by (simp add: decimalLeft_def decimalRight_def mkClip_def rnd_eval)
  have val: "start_time decimalRight = 7205759403792793 / 2 ^ 53 \<and>
             start_time decimalRight < start_time decimalLeft + duration decimalLeft"
    by (simp add: decimalLeft_def decimalRight_def mkClip_def rnd_eval)
  have none: "list_all (\<lambda>tr. list_all (\<lambda>c. \<not> inExtent 6 c) (clips tr)) (tracks testProject)"
    by (simp add: testProject_def mkClip_def inExtent_def rnd_eval)
  then have none': "\<forall>tr \<in> set (tracks testProject). \<forall>c \<in> set (clips tr). \<not> inExtent 6 c"
    by (simp add: list_all_iff)
  have act: "list_ex (inExtent (5/2)) (clipsOn ''VIDEO_A'' testProject)"
    by (simp add: testProject_def mkClip_def inExtent_def clipsOn_def rnd_eval)
  then have act': "\<exists>c \<in> set (clipsOn ''VIDEO_A'' testProject). inExtent (5/2) c"
    by (simp add: list_ex_iff)
  from evaluateTimeline_half_open [of testProject 6 decimalLeft decimalRight decimalLeft] ab none'
  have a: "inExtent (start_time decimalRight) decimalRight \<and>
           \<not> inExtent (start_time decimalRight) decimalLeft \<and>
           overlayTexts (evaluateTimeline
             (Some \<lparr>tracks = [\<lparr>track_type = ''OVERLAY_TEXT'',
                               clips = [decimalLeft, decimalRight]\<rparr>]\<rparr>)
             (start_time decimalRight))
             = [overlayEntry (start_time decimalRight) decimalRight] \<and>
           evaluateTimeline (Some testProject) 6 = emptyLayers"
    by blast
  from evaluateTimeline_half_open [of testProject "5/2" decimalLeft decimalRight decimalLeft] act'
  have b: "videoA (evaluateTimeline (Some testProject) (5/2)) \<noteq> None \<and>
           overlayTexts (evaluateTimeline (Some testProject) (5/2))
             = map (overlayEntry (5/2)) (filter (inExtent (5/2)) (clipsOn ''OVERLAY_TEXT'' testProject))"
    by blast
  have c: "length (filter (inExtent (5/2)) (clipsOn ''OVERLAY_TEXT'' testProject)) = 1"
    by (simp add: testProject_def mkClip_def inExtent_def clipsOn_def rnd_eval)
  from b c have len: "length (overlayTexts (evaluateTimeline (Some testProject) (5/2))) = 1"
    by simp
  show ?thesis using ab val a b len none by blast
qed

text \<open>
  The claim as stated fails at the boundary of two abutting clips when the duration of the
  second, though positive, does not change its start in the binary64 sum: the computed
  extent of the second clip is empty, and at the boundary time 5 neither clip is active.
\<close>

theorem evaluateTimeline_boundary_counterexample:
  "0 < duration clipLeft \<and> 0 < duration tinyClip \<and>
   start_time tinyClip = start_time clipLeft + duration clipLeft \<and>
   start_time tinyClip = fadd (start_time clipLeft) (duration clipLeft) \<and>
   fadd (start_time tinyClip) (duration tinyClip) = start_time tinyClip \<and>
   \<not> inExtent 5 clipLeft \<and> \<not> inExtent 5 tinyClip \<and>
   evaluateTimeline (Some tinyProject) 5 = emptyLayers"
  by (simp add: tinyProject_def tinyClip_def clipLeft_def mkClip_def inExtent_def
      evaluateTimeline_def evalTrack_def evalClip_def emptyLayers_def rnd_eval)

lemma evaluateTimeline_audio_None: "audio (evaluateTimeline proj t) = None"
  by (cases proj) (simp_all add: evaluateTimeline_def audio_foldl_evalTrack emptyLayers_def)

text \<open>
  C5 (the code at the failing input): the project has one AUDIO track whose clip extends
  over \<open>[0, 5)\<close>; at time 1 the clip contains the query time, and the result is the empty
  one, its \<open>audio\<close> field null.  The AUDIO branch of the loop body is empty.
\<close>

theorem evaluateTimeline_audio_placeholder:
  "list_ex (inExtent 1) (clipsOn ''AUDIO'' audioProject) \<and>
   audio (evaluateTimeline (Some audioProject) 1) = None \<and>
   evaluateTimeline (Some audioProject) 1 = emptyLayers"
  by (simp add: audioProject_def mkClip_def inExtent_def clipsOn_def evaluateTimeline_def
      evalTrack_def evalClip_def emptyLayers_def rnd_eval)

text \<open>
  C10: each video field holds the entry of the last clip, in clip-list order, among the
  clips of that track type whose extent contains the query time, and is null when there
  is none; a later active clip overwrites an earlier one, so there is at most one entry
  per video track type.
\<close>

theorem evaluateTimeline_video_last_wins:
  "videoA (evaluateTimeline (Some p) t)
     = lastOf (map (videoEntry t) (filter (inExtent t) (clipsOn ''VIDEO_A'' p))) \<and>
   videoB (evaluateTimeline (Some p) t)
     = lastOf (map (videoEntry t) (filter (inExtent t) (clipsOn ''VIDEO_B'' p)))"
  by (simp add: evaluateTimeline_def videoA_foldl_evalTrack videoB_foldl_evalTrack
      emptyLayers_def clipsOn_def pick_None_iff)


text \<open>On a VIDEO_A track holding a clip over \<open>[0, 5)\<close> followed by one over \<open>[2, 4)\<close>,
  both contain time 3 and the field holds the later one.\<close>

lemma overlapProject_last_wins:
  "map_option clipId (videoA (evaluateTimeline (Some overlapProject) 3)) = Some ''over'' \<and>
   map_option clipId (videoA (evaluateTimeline (Some overlapProject) 1)) = Some ''left''"
  by (simp add: evaluateTimeline_def videoA_evalTrack emptyLayers_def overlapProject_def
      clipLeft_def mkClip_def pick_def lastOf_def inExtent_def videoEntry_def rnd_eval)

section \<open>Properties of the segment planner\<close>










lemma rampClip_plan:
  "map (\<lambda>g. (sourceStart g, sourceEnd g, avgSpeed g, seg_start g))
       (planClip ''tmp'' 0 shortAsset rampClip)
   = [(0, 3/4, 3/2, 0), (3/4, 6/5, 5/2, 1/2)]"
  by (simp add: planClip_def planSubdivided_def clipCtx_def rampClip_def mkClip_def
      shortAsset_def assetMaxDur_def assetFps_def sortByTime_def kfLoop.simps subChunks.simps
      Let_def)

section \<open>Properties of the concatenation order\<close>

lemma set_insertVideo: "set (insertVideo x ys) = insert x (set ys)"
  by (induction ys) auto

lemma cmpVideo_neg: "cmpVideo x y < 0 \<Longrightarrow> start_time (fst x) \<le> start_time (fst y)"
  by (auto simp: cmpVideo_def Let_def split: if_splits)

lemma cmpVideo_nonneg: "\<not> cmpVideo x y < 0 \<Longrightarrow> start_time (fst y) \<le> start_time (fst x)"
  by (auto simp: cmpVideo_def Let_def split: if_splits)

lemma insertVideo_sorted:
  "sorted (map (\<lambda>v. start_time (fst v)) ys)
     \<Longrightarrow> sorted (map (\<lambda>v. start_time (fst v)) (insertVideo x ys))"
proof (induction ys)
  case Nil
  then show ?case by simp
next
  case (Cons y ys)
  show ?case
  proof (cases "cmpVideo x y < 0")
    case True
    then have "start_time (fst x) \<le> start_time (fst y)" by (rule cmpVideo_neg)
    with True Cons.prems show ?thesis by auto
  next
    case False
    then have "start_time (fst y) \<le> start_time (fst x)" by (rule cmpVideo_nonneg)
    with False Cons show ?thesis by (auto simp: set_insertVideo)
  qed
qed

lemma sortVideo_sorted: "sorted (map (\<lambda>v. start_time (fst v)) (sortVideo xs))"
proof -
  have "sorted (map (\<lambda>v. start_time (fst v)) acc)
      \<Longrightarrow> sorted (map (\<lambda>v. start_time (fst v)) (foldl (\<lambda>acc x. insertVideo x acc) acc xs))" for acc
    by (induction xs arbitrary: acc) (simp_all add: insertVideo_sorted)
  then show ?thesis by (simp add: sortVideo_def)
qed

lemma startsWithin_Nil: "startsWithin lo hi []"
  by (simp add: startsWithin_def)

lemma startsWithin_append:
  assumes "startsWithin lo mid xs" "startsWithin mid hi ys" "lo \<le> mid" "mid \<le> hi"
  shows "startsWithin lo hi (xs @ ys)"
  using assms by (fastforce simp: startsWithin_def sorted_append list_all_iff)

lemma startsWithin_Cons:
  assumes "lo \<le> seg_start g" "seg_start g \<le> mid" "startsWithin mid hi ys" "mid \<le> hi"
  shows "startsWithin lo hi (g # ys)"
  using assms by (fastforce simp: startsWithin_def list_all_iff)

lemma subChunks_starts:
  assumes "0 \<le> d" "s \<le> steps"
  shows "startsWithin (clipStart cx + p + real s * d) (clipStart cx + p + real steps * d)
           (fst (subChunks cx ki p ss es steps d s acc))"
  using assms(2)
proof (induction "steps - s" arbitrary: s acc)
  case 0
  then have "\<not> s < steps" by simp
  then show ?case by (subst subChunks.simps) (simp add: startsWithin_Nil)
next
  case (Suc n)
  then have lt: "s < steps" by simp
  define avgS where "avgS = (ss + (es - ss) * (real s / real steps)
                             + (ss + (es - ss) * ((real s + 1) / real steps))) / 2"
  define acc' where "acc' = acc + d * avgS"
  define g where "g = \<lparr> assetPath = apath cx, sourceStart = acc,
                     sourceEnd = min (acc + d * avgS) (maxSourceDur cx), avgSpeed = avgS,
                     outputPath = tempDir cx @ ''/clip_'' @ showNat (ci cx) @ ''_seg_'' @ showNat ki
                       @ ''_'' @ showNat s @ ''.mov'',
                     fps = afps cx, isMuted = muted cx,
                     seg_start = clipStart cx + p + real s * d,
                     seg_duration = d \<rparr>"
  define R where "R = subChunks cx ki p ss es steps d (Suc s) acc'"
  have unf: "subChunks cx ki p ss es steps d s acc
      = (if acc' \<ge> maxSourceDur cx then ([g], acc') else (g # fst R, snd R))"
    using lt by (subst subChunks.simps) (simp add: Let_def avgS_def acc'_def g_def R_def)
  have gs: "seg_start g = clipStart cx + p + real s * d" by (simp add: g_def)
  have "real s * d \<le> real (Suc s) * d" using assms(1) by (intro mult_right_mono) simp_all
  then have step: "clipStart cx + p + real s * d \<le> clipStart cx + p + real (Suc s) * d" by simp
  have "real (Suc s) * d \<le> real steps * d" using assms(1) lt by (intro mult_right_mono) simp_all
  then have top: "clipStart cx + p + real (Suc s) * d \<le> clipStart cx + p + real steps * d" by simp
  have n: "n = steps - Suc s" using Suc.hyps(2) by simp
  have le: "Suc s \<le> steps" using lt by simp
  have ih: "startsWithin (clipStart cx + p + real (Suc s) * d) (clipStart cx + p + real steps * d)
              (fst R)"
    unfolding R_def using n le by (rule Suc.hyps(1))
  have one: "startsWithin (clipStart cx + p + real s * d) (clipStart cx + p + real steps * d) [g]"
    using gs step top by (simp add: startsWithin_def)
  have more: "startsWithin (clipStart cx + p + real s * d) (clipStart cx + p + real steps * d)
                (g # fst R)"
    using gs step ih top by (intro startsWithin_Cons[where mid = "clipStart cx + p + real (Suc s) * d"]) simp_all
  show ?case unfolding unf using one more by simp
qed

lemma kfLoop_starts:
  "startsWithin (clipStart cx + p) (clipStart cx + max p dur)
     (fst (kfLoop cx kfs dur lastSpeed ki p acc))"
proof (induction "Suc (length kfs) - ki" arbitrary: ki p acc)
  case 0
  then have "\<not> ki \<le> length kfs" by simp
  then show ?case by (subst kfLoop.simps) (simp add: startsWithin_Nil)
next
  case (Suc n)
  then have le: "ki \<le> length kfs" by simp
  have n: "n = Suc (length kfs) - Suc ki" using Suc.hyps(2) by simp
  define kfTime0 where "kfTime0 = (if ki < length kfs then time (kfs ! ki) else dur)"
  define kfTime where "kfTime = (if kfTime0 > dur then dur else kfTime0)"
  define segDuration where "segDuration = kfTime - p"
  define endSpeed where "endSpeed = (if ki < length kfs then speed (kfs ! ki) else lastSpeed)"
  define startSpeed where "startSpeed = (if ki = 0 then speed (kfs ! 0)
                                 else if ki \<le> length kfs then speed (kfs ! (ki - 1))
                                 else lastSpeed)"
  define steps where "steps = nat \<lceil>segDuration / (1/2)\<rceil>"
  define r where "r = subChunks cx ki p startSpeed endSpeed steps (segDuration / real steps) 0 acc"
  have unf: "kfLoop cx kfs dur lastSpeed ki p acc
      = (if segDuration \<le> 1/1000 then kfLoop cx kfs dur lastSpeed (Suc ki) p acc
         else if snd r \<ge> maxSourceDur cx then r
         else (fst r @ fst (kfLoop cx kfs dur lastSpeed (Suc ki) kfTime (snd r)),
               snd (kfLoop cx kfs dur lastSpeed (Suc ki) kfTime (snd r))))"
    using le
    by (subst kfLoop.simps)
       (simp add: Let_def kfTime0_def kfTime_def segDuration_def endSpeed_def startSpeed_def
                  steps_def r_def)
  show ?case
  proof (cases "segDuration \<le> 1/1000")
    case True
    then show ?thesis unfolding unf using Suc.hyps(1)[OF n] by simp
  next
    case False
    then have pos: "0 < segDuration" by simp
    then have "0 < \<lceil>segDuration / (1/2)\<rceil>" by simp
    then have st: "0 < steps" by (simp add: steps_def)
    have d: "0 \<le> segDuration / real steps" using pos by simp
    have whole: "real steps * (segDuration / real steps) = segDuration" using st by simp
    have kd: "kfTime \<le> dur" by (simp add: kfTime_def)
    have pk: "p \<le> kfTime" using pos by (simp add: segDuration_def)
    have "startsWithin (clipStart cx + p + real 0 * (segDuration / real steps))
             (clipStart cx + p + real steps * (segDuration / real steps)) (fst r)"
      unfolding r_def using d by (intro subChunks_starts) simp_all
    then have rs: "startsWithin (clipStart cx + p) (clipStart cx + kfTime) (fst r)"
      unfolding whole by (simp add: segDuration_def)
    have mx: "max p dur = dur" "max kfTime dur = dur" using kd pk by simp_all
    have rs': "startsWithin (clipStart cx + p) (clipStart cx + max p dur) (fst r)"
      using rs kd unfolding mx by (auto simp: startsWithin_def list_all_iff)
    have ih: "startsWithin (clipStart cx + kfTime) (clipStart cx + dur)
                (fst (kfLoop cx kfs dur lastSpeed (Suc ki) kfTime (snd r)))"
      using Suc.hyps(1)[OF n, of kfTime "snd r"] unfolding mx .
    have both: "startsWithin (clipStart cx + p) (clipStart cx + max p dur)
                (fst r @ fst (kfLoop cx kfs dur lastSpeed (Suc ki) kfTime (snd r)))"
      unfolding mx using rs ih pk kd
      by (intro startsWithin_append[where mid = "clipStart cx + kfTime"]) simp_all
    show ?thesis
    proof (cases "snd r \<ge> maxSourceDur cx")
      case True
      with False rs' show ?thesis unfolding unf by simp
    next
      case nb: False
      with False both show ?thesis unfolding unf by simp
    qed
  qed
qed

lemma planClip_starts:
  "startsWithin (start_time c) (max (start_time c) (start_time c + duration c)) (planClip tmp i a c)"
proof (cases "length (speedKeyframes c) \<le> 1")
  case True
  then show ?thesis by (simp add: planClip_def Let_def startsWithin_def)
next
  case False
  have cs: "clipStart (clipCtx tmp i a c) = start_time c" by (simp add: clipCtx_def)
  have "startsWithin (clipStart (clipCtx tmp i a c) + 0)
          (clipStart (clipCtx tmp i a c) + max 0 (duration c)) (fst (planSubdivided tmp i a c))"
    unfolding planSubdivided_def Let_def by (rule kfLoop_starts)
  moreover have "start_time c + max 0 (duration c) = max (start_time c) (start_time c + duration c)"
    by simp
  ultimately show ?thesis using False unfolding cs by (simp add: planClip_def Let_def)
qed

lemma sorted_concat_within:
  assumes "\<And>x. x \<in> set xs \<Longrightarrow> startsWithin (lo x) (hi x) (h x)"
    and "sorted_wrt (\<lambda>x y. hi x \<le> lo y) xs"
  shows "sorted (map seg_start (concat (map h xs)))"
  using assms
proof (induction xs)
  case Nil
  then show ?case by simp
next
  case (Cons x xs)
  have hx: "startsWithin (lo x) (hi x) (h x)" using Cons.prems(1) by simp
  have rest: "sorted (map seg_start (concat (map h xs)))"
    using Cons.prems by (intro Cons.IH) simp_all
  have cross: "seg_start a \<le> seg_start b"
    if "a \<in> set (h x)" "b \<in> set (concat (map h xs))" for a b
  proof -
    from that(2) obtain y where y: "y \<in> set xs" "b \<in> set (h y)" by auto
    have "seg_start a \<le> hi x" using hx that(1) by (simp add: startsWithin_def list_all_iff)
    moreover have "hi x \<le> lo y" using Cons.prems(2) y(1) by simp
    moreover have "lo y \<le> seg_start b"
      using Cons.prems(1)[of y] y by (simp add: startsWithin_def list_all_iff)
    ultimately show ?thesis by linarith
  qed
  show ?case using hx rest cross by (auto simp: sorted_append startsWithin_def)
qed

lemma sorted_wrt_both:
  "sorted_wrt P xs \<Longrightarrow> sorted_wrt Q xs \<Longrightarrow> sorted_wrt (\<lambda>a b. P a b \<and> Q a b) xs"
  by (induction xs) auto

lemma segmentFiles_concat:
  "segmentFiles w tmp p = concat (map (clipSegs w tmp) (enumerate 0 (videoClips p)))"
proof -
  have "concat (map snd (concat (map (\<lambda>(i, vc). case assetOf w (fst vc) of
                               None \<Rightarrow> []
                             | Some a \<Rightarrow> [(i, planClip tmp i a (fst vc))]) xs)))
        = concat (map (clipSegs w tmp) xs)" for xs
    by (induction xs) (auto simp: clipSegs_def split: option.splits)
  then show ?thesis by (simp add: segmentFiles_def plannedClips_def)
qed

lemma segmentFiles_sorted:
  assumes "sorted_wrt (\<lambda>a b. start_time (fst a) + duration (fst a) \<le> start_time (fst b)) (videoClips p)"
  shows "sorted (map seg_start (segmentFiles w tmp p))"
proof -
  let ?lo = "\<lambda>x::nat \<times> vclip. start_time (fst (snd x))"
  let ?hi = "\<lambda>x::nat \<times> vclip. max (start_time (fst (snd x)))
                               (start_time (fst (snd x)) + duration (fst (snd x)))"
  let ?R = "\<lambda>a b::vclip. max (start_time (fst a)) (start_time (fst a) + duration (fst a))
                                 \<le> start_time (fst b)"
  have within: "startsWithin (?lo x) (?hi x) (clipSegs w tmp x)" for x
    by (cases "assetOf w (fst (snd x))") (simp_all add: clipSegs_def startsWithin_Nil planClip_starts)
  have "sorted (map (\<lambda>v. start_time (fst v)) (videoClips p))"
    by (simp add: videoClips_def sortVideo_sorted)
  then have s1: "sorted_wrt (\<lambda>a b. start_time (fst a) \<le> start_time (fst b)) (videoClips p)"
    by (simp add: sorted_wrt_map)
  have "sorted_wrt (\<lambda>a b. start_time (fst a) \<le> start_time (fst b) \<and>
                          start_time (fst a) + duration (fst a) \<le> start_time (fst b)) (videoClips p)"
    using s1 assms by (rule sorted_wrt_both)
  then have "sorted_wrt ?R (videoClips p)"
    by (rule sorted_wrt_mono_rel[rotated]) simp
  then have "sorted_wrt ?R (map snd (enumerate 0 (videoClips p)))"
    by (simp only: map_snd_enumerate)
  then have "sorted_wrt (\<lambda>x y. ?R (snd x) (snd y)) (enumerate 0 (videoClips p))"
    by (simp only: sorted_wrt_map)
  then have "sorted_wrt (\<lambda>x y. ?hi x \<le> ?lo y) (enumerate 0 (videoClips p))" .
  with within show ?thesis unfolding segmentFiles_concat
    by (intro sorted_concat_within[where lo = ?lo and hi = ?hi]) simp_all
qed

lemma crossProject_videoClips:
  "videoClips crossProject
     = [(mkClip ''a'' (Some ''asset1'') 0 2 [\<lparr>time = 0, speed = 1\<rparr>, \<lparr>time = 2, speed = 1\<rparr>], ''VIDEO_A''),
        (mkClip ''b'' (Some ''asset1'') 1 1 [], ''VIDEO_B'')]"
  by (simp add: videoClips_def sortVideo_def cmpVideo_def crossProject_def mkClip_def)

lemma crossProject_clipA:
  "map (\<lambda>g. (outputPath g, seg_start g))
     (planClip ''tmp'' 0 longAsset
        (mkClip ''a'' (Some ''asset1'') 0 2 [\<lparr>time = 0, speed = 1\<rparr>, \<lparr>time = 2, speed = 1\<rparr>]))
   = [(''tmp/clip_0_seg_1_0.mov'', 0), (''tmp/clip_0_seg_1_1.mov'', 1/2),
      (''tmp/clip_0_seg_1_2.mov'', 1), (''tmp/clip_0_seg_1_3.mov'', 3/2)]"
  by (simp add: longAsset_def mkClip_def
      planClip_def planSubdivided_def clipCtx_def assetMaxDur_def assetFps_def sortByTime_def
      kfLoop.simps subChunks.simps showNat.simps digits_def Let_def)
lemma asset_id_mkClip: "asset_id (mkClip i a s d kfs) = a"
  by (simp add: mkClip_def)

lemma crossProject_clipB:
  "map (\<lambda>g. (outputPath g, seg_start g))
     (planClip ''tmp'' (Suc 0) longAsset (mkClip ''b'' (Some ''asset1'') 1 1 []))
   = [(''tmp/clip_1_seg_0.mov'', 1)]"
  by (simp add: longAsset_def mkClip_def planClip_def clipCtx_def assetMaxDur_def assetFps_def
      showNat.simps digits_def Let_def)

lemma crossProject_files:
  "map (\<lambda>g. (outputPath g, seg_start g)) (segmentFiles demoWorld ''tmp'' crossProject)
     = [(''tmp/clip_0_seg_1_0.mov'', 0), (''tmp/clip_0_seg_1_1.mov'', 1/2),
        (''tmp/clip_0_seg_1_2.mov'', 1), (''tmp/clip_0_seg_1_3.mov'', 3/2),
        (''tmp/clip_1_seg_0.mov'', 1)]"
proof -
  have a: "assets demoWorld ''asset1'' = Some longAsset" by (simp add: demoWorld_def)
  show ?thesis
    unfolding segmentFiles_concat crossProject_videoClips
    by (simp add: clipSegs_def assetOf_def asset_id_mkClip a crossProject_clipA crossProject_clipB)
qed

text \<open>
  C8 (as amended): the video clips are taken in order of start time; the concat list names
  the segment files in the order they were planned, clip by clip in that order, and
  within one clip in non-decreasing order of timeline start; when each video clip ends no
  later than the next one starts, the whole list is in non-decreasing order of the
  segments' timeline starts.
\<close>

theorem concat_order_nonoverlapping:
  "sorted (map (\<lambda>v. start_time (fst v)) (videoClips p)) \<and>
   segmentFiles w tmp p = concat (map (clipSegs w tmp) (enumerate 0 (videoClips p))) \<and>
   sorted (map seg_start (clipSegs w tmp x)) \<and>
   phase2 w tmp p out =
     (if segmentFiles w tmp p = [] then [Run (BlackFill (totalDurationOf p) out)]
      else [Run (ConcatList (map concatLine (segmentFiles w tmp p)) out)]) @ [Report 60] \<and>
   (sorted_wrt (\<lambda>a b. start_time (fst a) + duration (fst a) \<le> start_time (fst b)) (videoClips p)
      \<longrightarrow> sorted (map seg_start (segmentFiles w tmp p)))"
proof (intro conjI impI)
  show "sorted (map (\<lambda>v. start_time (fst v)) (videoClips p))"
    by (simp add: videoClips_def sortVideo_sorted)
  show "segmentFiles w tmp p = concat (map (clipSegs w tmp) (enumerate 0 (videoClips p)))"
    by (rule segmentFiles_concat)
  show "sorted (map seg_start (clipSegs w tmp x))"
  proof (cases "assetOf w (fst (snd x))")
    case None
    then show ?thesis by (simp add: clipSegs_def)
  next
    case (Some a)
    then show ?thesis
      using planClip_starts[of "fst (snd x)" tmp "fst x" a]
      by (simp add: clipSegs_def startsWithin_def)
  qed
  show "phase2 w tmp p out =
     (if segmentFiles w tmp p = [] then [Run (BlackFill (totalDurationOf p) out)]
      else [Run (ConcatList (map concatLine (segmentFiles w tmp p)) out)]) @ [Report 60]"
    by (simp add: phase2_def)
next
  assume "sorted_wrt (\<lambda>a b. start_time (fst a) + duration (fst a) \<le> start_time (fst b))
            (videoClips p)"
  then show "sorted (map seg_start (segmentFiles w tmp p))" by (rule segmentFiles_sorted)
qed

theorem concat_order_nonoverlapping_witness:
  "sorted_wrt (\<lambda>a b. start_time (fst a) + duration (fst a) \<le> start_time (fst b))
     (videoClips abutProject) \<and>
   sorted (map seg_start (segmentFiles demoWorld ''tmp'' abutProject)) \<and>
   map seg_start (segmentFiles demoWorld ''tmp'' abutProject) = [0, 5]"
proof -
  have v: "videoClips abutProject = [(clipLeft, ''VIDEO_A''), (clipRight, ''VIDEO_A'')]"
    by (simp add: videoClips_def sortVideo_def cmpVideo_def abutProject_def clipLeft_def
        clipRight_def mkClip_def)
  have h: "sorted_wrt (\<lambda>a b. start_time (fst a) + duration (fst a) \<le> start_time (fst b))
             (videoClips abutProject)"
    unfolding v by (simp add: clipLeft_def clipRight_def mkClip_def)
  have a: "assets demoWorld ''asset1'' = Some longAsset" by (simp add: demoWorld_def)
  have e: "map seg_start (segmentFiles demoWorld ''tmp'' abutProject) = [0, 5]"
    unfolding segmentFiles_concat v
    by (simp add: clipSegs_def assetOf_def a clipLeft_def clipRight_def mkClip_def planClip_def
        Let_def)
  from concat_order_nonoverlapping [of abutProject demoWorld "''tmp''" "(0, clipLeft, ''VIDEO_A'')"
      "''out.mp4''"] h e
  show ?thesis by simp
qed

text \<open>
  The claim as stated fails when clips of the two video tracks overlap: the subdivided clip
  on VIDEO_A contributes the starts 0, 0.5, 1, 1.5 and the VIDEO_B clip that starts at 1
  follows them in the concat list.
\<close>

theorem concat_order_counterexample:
  "map seg_start (segmentFiles demoWorld ''tmp'' crossProject) = [0, 1/2, 1, 3/2, 1] \<and>
   \<not> sorted (map seg_start (segmentFiles demoWorld ''tmp'' crossProject)) \<and>
   map outputPath (segmentFiles demoWorld ''tmp'' crossProject)
     = [''tmp/clip_0_seg_1_0.mov'', ''tmp/clip_0_seg_1_1.mov'', ''tmp/clip_0_seg_1_2.mov'',
        ''tmp/clip_0_seg_1_3.mov'', ''tmp/clip_1_seg_0.mov''] \<and>
   phase2 demoWorld ''tmp'' crossProject ''out.mp4''
     = [Run (ConcatList (map concatLine (segmentFiles demoWorld ''tmp'' crossProject)) ''out.mp4''),
        Report 60]"
proof -
  have s: "map seg_start (segmentFiles demoWorld ''tmp'' crossProject)
             = map snd (map (\<lambda>g. (outputPath g, seg_start g)) (segmentFiles demoWorld ''tmp'' crossProject))"
    by (simp add: comp_def)
  have o: "map outputPath (segmentFiles demoWorld ''tmp'' crossProject)
             = map fst (map (\<lambda>g. (outputPath g, seg_start g)) (segmentFiles demoWorld ''tmp'' crossProject))"
    by (simp add: comp_def)
  have s': "map seg_start (segmentFiles demoWorld ''tmp'' crossProject) = [0, 1/2, 1, 3/2, 1]"
    unfolding s crossProject_files by simp
  have o': "map outputPath (segmentFiles demoWorld ''tmp'' crossProject)
     = [''tmp/clip_0_seg_1_0.mov'', ''tmp/clip_0_seg_1_1.mov'', ''tmp/clip_0_seg_1_2.mov'',
        ''tmp/clip_0_seg_1_3.mov'', ''tmp/clip_1_seg_0.mov'']"
    unfolding o crossProject_files by simp
  have ne: "segmentFiles demoWorld ''tmp'' crossProject \<noteq> []"
    using s' by auto
  have ns: "\<not> sorted (map seg_start (segmentFiles demoWorld ''tmp'' crossProject))"
    unfolding s' by simp
  show ?thesis using s' o' ne ns by (simp add: phase2_def)
qed

section \<open>Properties of a failing export run\<close>













lemma plannedClips_assets:
  assumes "assets w = assets w'"
  shows "plannedClips w tmp p = plannedClips w' tmp p"
proof -
  have "assetOf w = assetOf w'" by (rule ext) (simp add: assetOf_def assms split: option.splits)
  then show ?thesis by (simp add: plannedClips_def)
qed

lemma phase1_assets:
  assumes "assets w = assets w'"
  shows "phase1 e w tmp p = phase1 e w' tmp p"
  by (simp add: phase1_def plannedClips_assets[OF assms])

lemma abutProject_videoClips:
  "videoClips abutProject = [(clipLeft, ''VIDEO_A''), (clipRight, ''VIDEO_A'')]"
  by (simp add: videoClips_def sortVideo_def cmpVideo_def abutProject_def clipLeft_def
      clipRight_def mkClip_def)

lemma abutProject_first_step:
  "\<exists>c rest. phase1 e (mkdir d demoWorld) tmp abutProject = Run c # rest"
proof -
  have a: "assets (mkdir d demoWorld) ''asset1'' = Some longAsset"
    by (simp add: demoWorld_def mkdir_def)
  have l: "asset_id clipLeft = Some ''asset1''" "asset_id clipRight = Some ''asset1''"
    by (simp_all add: clipLeft_def clipRight_def mkClip_def)
  have p: "\<exists>g gs. planClip tmp 0 longAsset clipLeft = g # gs"
    by (simp add: planClip_def clipLeft_def mkClip_def Let_def)
  have r: "\<exists>c cs. renderSteps e g = Run c # cs" for g
    by (simp add: renderSteps_def renderClipSegment_def Let_def)
  from p obtain g gs where g: "planClip tmp 0 longAsset clipLeft = g # gs" by blast
  from r obtain c cs where c: "renderSteps e g = Run c # cs" by blast
  show ?thesis
    by (simp add: phase1_def plannedClips_def abutProject_videoClips assetOf_def a l g c)
qed

lemma abutProject_failed_run:
  assumes "runFfmpeg (FFMPEG_PATH e) (encoder e 0) = Inl msg"
  shows "processExportJob e abutProject ''j1'' demoWorld
     = (1, demoWorld\<lparr>export_jobs :=
              [\<lparr> job_id = ''j1'', project_id = ''p1'', request_id = Some ''r1'',
                 status = FAILED, progress = 0, output_path = None, error = Some msg \<rparr>]\<rparr>)"
proof -
  define w1 where "w1 = updateJob ''j1'' (\<lambda>j. j\<lparr>status := RUNNING\<rparr>) demoWorld"
  have w1: "w1 = demoWorld\<lparr>export_jobs :=
              [\<lparr> job_id = ''j1'', project_id = ''p1'', request_id = Some ''r1'',
                 status = RUNNING, progress = 0, output_path = None, error = None \<rparr>]\<rparr>"
    by (simp add: w1_def updateJob_def demoWorld_def)
  have td: "\<not> totalDurationOf abutProject \<le> 0"
    by (simp add: totalDurationOf_def abutProject_def clipLeft_def clipRight_def mkClip_def)
  have a: "assets (mkdir d w1) = assets demoWorld" for d
    by (simp add: w1 mkdir_def)
  have "assets (mkdir d w1) = assets (mkdir d demoWorld)" for d
    by (simp add: w1_def updateJob_def mkdir_def)
  then have ph: "phase1 e (mkdir d w1) tmp abutProject = phase1 e (mkdir d demoWorld) tmp abutProject"
    for d tmp
    by (rule phase1_assets)
  obtain c rest where st: "phase1 e (mkdir (scratchDir e ''j1'') w1) (scratchDir e ''j1'') abutProject
      = Run c # rest"
    unfolding ph using abutProject_first_step by blast
  have ex: "exportProject e abutProject ''j1'' w1
      = (Inl msg, 1, rmDir (scratchDir e ''j1'') (mkdir (scratchDir e ''j1'') w1))"
    using td assms by (simp add: exportProject_def Let_def st)
  have dirs: "rmDir (scratchDir e ''j1'') (mkdir (scratchDir e ''j1'') w1) = w1"
    by (simp add: w1 rmDir_def mkdir_def demoWorld_def)
  show ?thesis
    unfolding processExportJob_def Let_def w1_def[symmetric] ex dirs
    by (simp add: w1 updateJob_def demoWorld_def)
qed

text \<open>The two error texts on a run whose first encoder call fails.\<close>

lemma failed_run_error_texts:
  "map error (export_jobs (snd (processExportJob missingEnv abutProject ''j1'' demoWorld)))
     = [Some (''FFmpeg not found at '' @ [CHR 0x22] @ ''ffmpeg'' @ [CHR 0x22]
               @ ''. Please ensure FFmpeg is installed/in PATH.'')] \<and>
   map error (export_jobs (snd (processExportJob brokenEnv abutProject ''j1'' demoWorld)))
     = [Some ''FFmpeg exited with code 1: Invalid data found'']"
proof -
  have m: "runFfmpeg (FFMPEG_PATH missingEnv) (encoder missingEnv 0)
      = Inl (''FFmpeg not found at '' @ [CHR 0x22] @ ''ffmpeg'' @ [CHR 0x22]
               @ ''. Please ensure FFmpeg is installed/in PATH.'')"
    by (simp add: runFfmpeg_def missingEnv_def)
  have b: "runFfmpeg (FFMPEG_PATH brokenEnv) (encoder brokenEnv 0)
      = Inl ''FFmpeg exited with code 1: Invalid data found''"
    by (simp add: runFfmpeg_def brokenEnv_def missingEnv_def showCode_def showNat.simps
        digits_def sliceLast_def)
  show ?thesis
    unfolding abutProject_failed_run[OF m] abutProject_failed_run[OF b] by simp
qed


section \<open>Properties of the submit route\<close>

lemma find_snoc:
  "find P (xs @ [x]) = (case find P xs of None \<Rightarrow> (if P x then Some x else None) | Some y \<Rightarrow> Some y)"
  by (induction xs) auto

lemma postExport_unfold:
  "postExport w projectId body uuids =
     (if projectId \<notin> set (projects w) then (NotFound ''Project not found'', w, None)
      else (case jobByRequest w (requestIdOf body uuids) of
              Some existing \<Rightarrow> (Json existing, w, None)
            | None \<Rightarrow>
                if jobById w (jobIdOf body uuids) \<noteq> None then (Unhandled, w, None)
                else (Json (newJob (jobIdOf body uuids) projectId (requestIdOf body uuids)),
                      w\<lparr>export_jobs := export_jobs w @
                          [newJob (jobIdOf body uuids) projectId (requestIdOf body uuids)]\<rparr>,
                      Some (jobIdOf body uuids))))"
proof -
  have row: "jobById (w\<lparr>export_jobs := export_jobs w @ [newJob i projectId r]\<rparr>) i
               = Some (newJob i projectId r)" if "jobById w i = None" for i r
    using that by (simp add: jobById_def find_snoc newJob_def)
  have given: "(case body of None \<Rightarrow> False | Some r \<Rightarrow> r \<noteq> []) \<Longrightarrow>
      requestIdOf body uuids = the body \<and> jobIdOf body uuids = uuids 0"
    by (cases body) (simp_all add: requestIdOf_def jobIdOf_def)
  have absent: "\<not> (case body of None \<Rightarrow> False | Some r \<Rightarrow> r \<noteq> []) \<Longrightarrow>
      requestIdOf body uuids = uuids 0 \<and> jobIdOf body uuids = uuids 1"
    by (cases body) (simp_all add: requestIdOf_def jobIdOf_def)
  show ?thesis
  proof (cases "case body of None \<Rightarrow> False | Some r \<Rightarrow> r \<noteq> []")
    case True
    with given have e: "requestIdOf body uuids = the body" "jobIdOf body uuids = uuids 0" by simp_all
    show ?thesis unfolding e using True row[of "uuids 0" "the body"]
      by (simp add: postExport_def Let_def newJob_def[symmetric] split: option.splits)
  next
    case False
    with absent have e: "requestIdOf body uuids = uuids 0" "jobIdOf body uuids = uuids 1" by simp_all
    show ?thesis unfolding e using False row[of "uuids 1" "uuids 0"]
      by (simp add: postExport_def Let_def newJob_def[symmetric] split: option.splits)
  qed
qed

lemma jobByRequest_mem: "jobByRequest w r = Some j \<Longrightarrow> j \<in> set (export_jobs w) \<and> request_id j = Some r"
  unfolding jobByRequest_def by (auto simp: find_Some_iff)

lemma jobById_fresh: "jobById w i = None \<Longrightarrow> i \<notin> job_id ` set (export_jobs w)"
  unfolding jobById_def by (auto simp: find_None_iff)

lemma postExport_created:
  assumes "postExport w projectId body uuids = (Json j, w', Some started)"
  shows "j = newJob (jobIdOf body uuids) projectId (requestIdOf body uuids) \<and>
         job_id j \<notin> job_id ` set (export_jobs w) \<and>
         export_jobs w' = export_jobs w @ [j] \<and> started = job_id j"
proof -
  have p: "projectId \<in> set (projects w)"
    using assms by (auto simp: postExport_unfold split: if_splits)
  have n: "jobByRequest w (requestIdOf body uuids) = None"
    using assms p by (auto simp: postExport_unfold split: option.splits)
  have f: "jobById w (jobIdOf body uuids) = None"
    using assms p n by (auto simp: postExport_unfold split: if_splits)
  have "postExport w projectId body uuids =
      (Json (newJob (jobIdOf body uuids) projectId (requestIdOf body uuids)),
       w\<lparr>export_jobs := export_jobs w @
           [newJob (jobIdOf body uuids) projectId (requestIdOf body uuids)]\<rparr>,
       Some (jobIdOf body uuids))"
    using p n f by (simp add: postExport_unfold)
  with assms have "(Json j, w', Some started) =
      (Json (newJob (jobIdOf body uuids) projectId (requestIdOf body uuids)),
       w\<lparr>export_jobs := export_jobs w @
           [newJob (jobIdOf body uuids) projectId (requestIdOf body uuids)]\<rparr>,
       Some (jobIdOf body uuids))"
    by (rule trans[OF sym])
  then have j: "j = newJob (jobIdOf body uuids) projectId (requestIdOf body uuids)"
    and w': "w' = w\<lparr>export_jobs := export_jobs w @
           [newJob (jobIdOf body uuids) projectId (requestIdOf body uuids)]\<rparr>"
    and s: "started = jobIdOf body uuids" by blast+
  have i: "job_id j = jobIdOf body uuids" by (simp add: j newJob_def)
  show ?thesis using j w' s i jobById_fresh[OF f] by simp
qed

lemma postExport_returned:
  assumes "postExport w projectId body uuids = (Json j, w', None)"
  shows "w' = w \<and> jobByRequest w (requestIdOf body uuids) = Some j"
proof -
  have p: "projectId \<in> set (projects w)"
    using assms by (auto simp: postExport_unfold split: if_splits)
  show ?thesis
    using assms p by (auto simp: postExport_unfold split: option.splits if_splits)
qed

lemma postExport_again:
  assumes "postExport w projectId body uuids = (Json j, w1, st)"
    "requestIdOf body' uuids' = requestIdOf body uuids"
  shows "postExport w1 projectId body' uuids' = (Json j, w1, None)"
proof -
  have p: "projectId \<in> set (projects w)"
    using assms(1) by (auto simp: postExport_unfold split: if_splits)
  have "jobByRequest w1 (requestIdOf body uuids) = Some j \<and> projectId \<in> set (projects w1)"
  proof (cases st)
    case None
    with assms(1) postExport_returned[of w projectId body uuids j w1] p show ?thesis by simp
  next
    case (Some started)
    with assms(1) postExport_created[of w projectId body uuids j w1 started]
    have j: "j = newJob (jobIdOf body uuids) projectId (requestIdOf body uuids)"
      and w1: "export_jobs w1 = export_jobs w @ [j]" by simp_all
    have n: "jobByRequest w (requestIdOf body uuids) = None"
      using assms(1) p Some by (auto simp: postExport_unfold split: option.splits)
    have "projects w1 = projects w"
      using assms(1) p n by (auto simp: postExport_unfold split: if_splits)
    moreover have "jobByRequest w1 (requestIdOf body uuids) = Some j"
      using n unfolding jobByRequest_def w1 by (simp add: find_snoc j newJob_def)
    ultimately show ?thesis using p by simp
  qed
  then show ?thesis using assms(2) by (simp add: postExport_unfold)
qed

text \<open>
  C3 (as amended): the request token of a submit call is the \<open>requestId\<close> of its body, or
  a generated identifier when that is absent or empty.  For a call that names an existing
  project: if a job row with the token exists, the call returns that row as it is, whatever
  its status, changes nothing and starts no processing.  If none exists, the call generates
  a job id; when no row has that id it appends one new row with it, status QUEUED and
  progress 0, returns the row and starts its processing, and when a row has that id
  already the insert fails, nothing is returned and nothing changes.  Whenever a call
  returns a job and starts its processing, the id of that job is the id of no row that
  existed before the call.  A later call whose token is the token of a call that returned
  a job returns the same job and changes nothing.  A call that names no existing project
  is answered with 404 and changes nothing.
\<close>

theorem submit_idempotent:
  "(projectId \<in> set (projects w) \<and> jobByRequest w (requestIdOf body uuids) = Some j \<longrightarrow>
      postExport w projectId body uuids = (Json j, w, None)) \<and>
   (projectId \<in> set (projects w) \<and> jobByRequest w (requestIdOf body uuids) = None \<longrightarrow>
      postExport w projectId body uuids
        = (if jobById w (jobIdOf body uuids) = None
           then (Json (newJob (jobIdOf body uuids) projectId (requestIdOf body uuids)),
                 w\<lparr>export_jobs := export_jobs w @
                     [newJob (jobIdOf body uuids) projectId (requestIdOf body uuids)]\<rparr>,
                 Some (jobIdOf body uuids))
           else (Unhandled, w, None))) \<and>
   (postExport w projectId body uuids = (Json j', w1, Some started) \<longrightarrow>
      job_id j' \<notin> job_id ` set (export_jobs w) \<and> status j' = QUEUED \<and> progress j' = 0 \<and>
      project_id j' = projectId \<and> request_id j' = Some (requestIdOf body uuids) \<and>
      export_jobs w1 = export_jobs w @ [j'] \<and> started = job_id j') \<and>
   (postExport w projectId body uuids = (Json j', w1, st) \<and>
    requestIdOf body' uuids' = requestIdOf body uuids \<longrightarrow>
      postExport w1 projectId body' uuids' = (Json j', w1, None)) \<and>
   (projectId \<notin> set (projects w) \<longrightarrow>
      postExport w projectId body uuids = (NotFound ''Project not found'', w, None))"
proof (intro conjI impI)
  assume "projectId \<notin> set (projects w)"
  then show "postExport w projectId body uuids = (NotFound ''Project not found'', w, None)"
    by (simp add: postExport_unfold)
next
  assume "projectId \<in> set (projects w) \<and> jobByRequest w (requestIdOf body uuids) = Some j"
  then show "postExport w projectId body uuids = (Json j, w, None)"
    by (simp add: postExport_unfold)
next
  assume "projectId \<in> set (projects w) \<and> jobByRequest w (requestIdOf body uuids) = None"
  then show "postExport w projectId body uuids
        = (if jobById w (jobIdOf body uuids) = None
           then (Json (newJob (jobIdOf body uuids) projectId (requestIdOf body uuids)),
                 w\<lparr>export_jobs := export_jobs w @
                     [newJob (jobIdOf body uuids) projectId (requestIdOf body uuids)]\<rparr>,
                 Some (jobIdOf body uuids))
           else (Unhandled, w, None))"
    by (simp add: postExport_unfold)
next
  assume h: "postExport w projectId body uuids = (Json j', w1, Some started)"
  note c = postExport_created[OF h]
  from c show "job_id j' \<notin> job_id ` set (export_jobs w)" by blast
  from c show "status j' = QUEUED" by (simp add: newJob_def)
  from c show "progress j' = 0" by (simp add: newJob_def)
  from c show "project_id j' = projectId" by (simp add: newJob_def)
  from c show "request_id j' = Some (requestIdOf body uuids)" by (simp add: newJob_def)
  from c show "export_jobs w1 = export_jobs w @ [j']" by blast
  from c show "started = job_id j'" by blast
next
  assume "postExport w projectId body uuids = (Json j', w1, st) \<and>
    requestIdOf body' uuids' = requestIdOf body uuids"
  then show "postExport w1 projectId body' uuids' = (Json j', w1, None)"
    using postExport_again by blast
qed


theorem submit_idempotent_witness:
  "''p1'' \<in> set (projects demoWorld) \<and>
   jobByRequest demoWorld (requestIdOf (Some ''r1'') demoUuids) = Some demoJob \<and>
   postExport demoWorld ''p1'' (Some ''r1'') demoUuids = (Json demoJob, demoWorld, None) \<and>
   jobByRequest demoWorld (requestIdOf (Some ''r2'') demoUuids) = None \<and>
   jobById demoWorld (jobIdOf (Some ''r2'') demoUuids) = None \<and>
   postExport demoWorld ''p1'' (Some ''r2'') demoUuids
     = (Json (newJob ''u0'' ''p1'' ''r2''),
        demoWorld\<lparr>export_jobs := [demoJob, newJob ''u0'' ''p1'' ''r2'']\<rparr>, Some ''u0'') \<and>
   job_id (newJob ''u0'' ''p1'' ''r2'') \<notin> job_id ` set (export_jobs demoWorld) \<and>
   status (newJob ''u0'' ''p1'' ''r2'') = QUEUED \<and>
   postExport (demoWorld\<lparr>export_jobs := [demoJob, newJob ''u0'' ''p1'' ''r2'']\<rparr>) ''p1''
       (Some ''r2'') demoUuids
     = (Json (newJob ''u0'' ''p1'' ''r2''),
        demoWorld\<lparr>export_jobs := [demoJob, newJob ''u0'' ''p1'' ''r2'']\<rparr>, None) \<and>
   jobByRequest demoWorld (requestIdOf None demoUuids) = None \<and>
   jobById demoWorld (jobIdOf None demoUuids) = None \<and>
   postExport demoWorld ''p1'' None demoUuids
     = (Json (newJob ''u1'' ''p1'' ''u0''),
        demoWorld\<lparr>export_jobs := [demoJob, newJob ''u1'' ''p1'' ''u0'']\<rparr>, Some ''u1'') \<and>
   jobByRequest demoWorld (requestIdOf (Some ''r2'') usedUuids) = None \<and>
   jobById demoWorld (jobIdOf (Some ''r2'') usedUuids) = Some demoJob \<and>
   postExport demoWorld ''p1'' (Some ''r2'') usedUuids = (Unhandled, demoWorld, None) \<and>
   ''p3'' \<notin> set (projects demoWorld) \<and>
   postExport demoWorld ''p3'' None demoUuids = (NotFound ''Project not found'', demoWorld, None)"
proof -
  define w2 where "w2 = demoWorld\<lparr>export_jobs := [demoJob, newJob ''u0'' ''p1'' ''r2'']\<rparr>"
  have p: "''p1'' \<in> set (projects demoWorld)" by (simp add: demoWorld_def)
  have q: "''p3'' \<notin> set (projects demoWorld)" by (simp add: demoWorld_def)
  have jobs: "export_jobs demoWorld = [demoJob]" by (simp add: demoWorld_def demoJob_def)
  have t1: "requestIdOf (Some ''r1'') demoUuids = ''r1''" by (simp add: requestIdOf_def)
  have t2: "requestIdOf (Some ''r2'') demoUuids = ''r2''" "jobIdOf (Some ''r2'') demoUuids = ''u0''"
    by (simp_all add: requestIdOf_def jobIdOf_def demoUuids_def)
  have t3: "requestIdOf None demoUuids = ''u0''" "jobIdOf None demoUuids = ''u1''"
    by (simp_all add: requestIdOf_def jobIdOf_def demoUuids_def)
  have t4: "requestIdOf (Some ''r2'') usedUuids = ''r2''" "jobIdOf (Some ''r2'') usedUuids = ''j1''"
    by (simp_all add: requestIdOf_def jobIdOf_def usedUuids_def)
  have a: "jobByRequest demoWorld ''r1'' = Some demoJob"
    by (simp add: jobByRequest_def jobs) (simp add: demoJob_def)
  have b: "jobByRequest demoWorld ''r2'' = None" "jobById demoWorld ''u0'' = None"
    "jobByRequest demoWorld ''u0'' = None" "jobById demoWorld ''u1'' = None"
    by (simp_all add: jobByRequest_def jobById_def jobs) (simp_all add: demoJob_def)
  have c: "jobById demoWorld ''j1'' = Some demoJob"
    by (simp add: jobById_def jobs) (simp add: demoJob_def)
  from submit_idempotent [where projectId = "''p1''" and w = demoWorld and body = "Some ''r1''"
      and uuids = demoUuids and j = demoJob] p a
  have one: "postExport demoWorld ''p1'' (Some ''r1'') demoUuids = (Json demoJob, demoWorld, None)"
    by (simp add: t1)
  from submit_idempotent [where projectId = "''p1''" and w = demoWorld and body = "Some ''r2''"
      and uuids = demoUuids] p b
  have two: "postExport demoWorld ''p1'' (Some ''r2'') demoUuids
     = (Json (newJob ''u0'' ''p1'' ''r2''), w2, Some ''u0'')"
    by (simp add: t2 jobs w2_def)
  from submit_idempotent [where projectId = "''p1''" and w = demoWorld and body = "Some ''r2''"
      and uuids = demoUuids and j' = "newJob ''u0'' ''p1'' ''r2''" and ?w1.0 = w2
      and started = "''u0''" and st = "Some ''u0''" and body' = "Some ''r2''"
      and uuids' = demoUuids] two
  have three: "job_id (newJob ''u0'' ''p1'' ''r2'') \<notin> job_id ` set (export_jobs demoWorld) \<and>
      status (newJob ''u0'' ''p1'' ''r2'') = QUEUED \<and>
      postExport w2 ''p1'' (Some ''r2'') demoUuids = (Json (newJob ''u0'' ''p1'' ''r2''), w2, None)"
    by blast
  from submit_idempotent [where projectId = "''p1''" and w = demoWorld and body = None
      and uuids = demoUuids] p b
  have four: "postExport demoWorld ''p1'' None demoUuids
     = (Json (newJob ''u1'' ''p1'' ''u0''),
        demoWorld\<lparr>export_jobs := [demoJob, newJob ''u1'' ''p1'' ''u0'']\<rparr>, Some ''u1'')"
    by (simp add: t3 jobs)
  from submit_idempotent [where projectId = "''p1''" and w = demoWorld and body = "Some ''r2''"
      and uuids = usedUuids] p b c
  have five: "postExport demoWorld ''p1'' (Some ''r2'') usedUuids = (Unhandled, demoWorld, None)"
    by (simp add: t4)
  from submit_idempotent [where projectId = "''p3''" and w = demoWorld and body = None
      and uuids = demoUuids] q
  have six: "postExport demoWorld ''p3'' None demoUuids
      = (NotFound ''Project not found'', demoWorld, None)"
    by simp
  show ?thesis
    unfolding t1 t2 t3 t4 using p q a b c one two three four five six unfolding w2_def by blast
qed

text \<open>
  The claim as stated fails for a submit call whose project does not exist: the route
  answers 404 before it looks at the token, whether a job for the token exists (\<open>r1\<close>) or
  not (\<open>r2\<close>), and no job is created.
\<close>

theorem submit_counterexample:
  "jobByRequest demoWorld ''r1'' = Some demoJob \<and>
   postExport demoWorld ''p2'' (Some ''r1'') demoUuids
     = (NotFound ''Project not found'', demoWorld, None) \<and>
   jobByRequest demoWorld ''r2'' = None \<and>
   postExport demoWorld ''p2'' (Some ''r2'') demoUuids
     = (NotFound ''Project not found'', demoWorld, None)"
  by (simp add: postExport_def jobByRequest_def demoWorld_def demoJob_def)

end
